theory Spec2Isabelle
  imports Main "HOL-Library.Word" "HOL-Library.Multiset"
begin

section \<open>Strings\<close>

text \<open>
  The program is one TypeScript module that runs in a browser. Its own functions are
  modelled from its source. The functions of the platform that it calls
  (\<open>String.prototype.trim\<close>, \<open>Number.prototype.toString\<close>, \<open>JSON.stringify\<close>,
  \<open>JSON.parse\<close>, \<open>Promise.all\<close>, \<open>Array.prototype.indexOf\<close>) are modelled after
  their definitions in ECMA-262, as far as the program uses them.

  A JavaScript string is a sequence of 16-bit code units. Literals of the source are
  written \<open>str ''...''\<close>.
\<close>

type_synonym jsstring = "16 word list"

definition str :: "string \<Rightarrow> jsstring" where
  "str s = map of_char s"

text \<open>
  \<open>String.prototype.trim\<close> removes the code units that are WhiteSpace or LineTerminator
  from both ends.
\<close>

definition is_white_space :: "16 word \<Rightarrow> bool" where
  "is_white_space c \<longleftrightarrow>
     c \<in> set [0x09, 0x0A, 0x0B, 0x0C, 0x0D, 0x20, 0xA0, 0x1680, 0x2028, 0x2029,
               0x202F, 0x205F, 0x3000, 0xFEFF]
     \<or> (0x2000 \<le> c \<and> c \<le> 0x200A)"

definition trim :: "jsstring \<Rightarrow> jsstring" where
  "trim s = rev (dropWhile is_white_space (rev (dropWhile is_white_space s)))"

text \<open>
  \<open>Number.prototype.toString\<close> on an integer: its decimal digits, with a minus sign
  below zero. \<open>Date.now()\<close> returns integers, and so the numbers of the program are
  modelled as \<open>int\<close>.
\<close>

definition digit_char :: "nat \<Rightarrow> 16 word" where
  "digit_char d = of_nat (48 + d)"

function show_nat :: "nat \<Rightarrow> jsstring" where
  "show_nat n = (if n < 10 then [digit_char n] else show_nat (n div 10) @ [digit_char (n mod 10)])"
  by pat_completeness auto
termination
  by (relation "measure id") auto

declare show_nat.simps [simp del]

definition toString :: "int \<Rightarrow> jsstring" where
  "toString n = (if n < 0 then 0x2D # show_nat (nat (- n)) else show_nat (nat n))"

section \<open>Data model\<close>

datatype AspectRatio = R9_16 | R1_1 | R16_9

datatype Source = User | Demo

record Wallpaper =
  id_field :: jsstring
  prompt :: jsstring
  imageUrl :: jsstring
  aspectRatio :: AspectRatio
  timestamp :: int
  source :: Source

text \<open>The two string enumerations of the source, as the strings they are at run time.\<close>

fun ratio_string :: "AspectRatio \<Rightarrow> jsstring" where
  "ratio_string R9_16 = str ''9:16''"
| "ratio_string R1_1 = str ''1:1''"
| "ratio_string R16_9 = str ''16:9''"

fun source_string :: "Source \<Rightarrow> jsstring" where
  "source_string User = str ''user''"
| "source_string Demo = str ''demo''"

text \<open>
  A JavaScript object has an identity: \<open>handleFormSubmit\<close> pushes one and the same object
  onto \<open>history\<close> and onto \<open>allGenerations\<close>. An entity of a list is therefore a pair of
  the address of the object and its fields (which the program never changes after the
  object literal is evaluated). Addresses are handed out by a counter, \<open>next_addr\<close>; they
  only tell two objects with equal fields apart.
\<close>

type_synonym obj = "nat \<times> Wallpaper"

abbreviation wallpapers_of :: "obj list \<Rightarrow> Wallpaper list" where
  "wallpapers_of os \<equiv> map snd os"

text \<open>
  The calls that leave the program: a request to the image model (prompt as sent, aspect
  ratio) and a write to the browser's \<open>localStorage\<close> (key, value).
\<close>

datatype effect = GenerateImages jsstring AspectRatio | SetItem jsstring jsstring

fun is_write :: "effect \<Rightarrow> bool" where
  "is_write (SetItem k v) = True"
| "is_write (GenerateImages p r) = False"

fun is_request :: "effect \<Rightarrow> bool" where
  "is_request (GenerateImages p r) = True"
| "is_request (SetItem k v) = False"

text \<open>
  The module-level variables, the value of the prompt text area, the store, the trace of
  outbound calls made so far, and the allocation counter.
\<close>

record state =
  history :: "obj list"
  demoHistory :: "obj list"
  allGenerations :: "obj list"
  demoPrompts :: "jsstring list"
  selectedAspectRatio :: AspectRatio
  promptInput :: jsstring
  localStorage :: "jsstring \<rightharpoonup> jsstring"
  effects :: "effect list"
  next_addr :: nat

definition initial_state :: "(jsstring \<rightharpoonup> jsstring) \<Rightarrow> state" where
  "initial_state store =
     \<lparr>history = [], demoHistory = [], allGenerations = [], demoPrompts = [],
      selectedAspectRatio = R9_16, promptInput = [], localStorage = store,
      effects = [], next_addr = 0\<rparr>"

definition PROMPT_POOL :: "jsstring list" where
  "PROMPT_POOL = map str
     [''Epic anime warrior under the moonlight'',
      ''Cute anime girl with cherry blossoms'',
      ''A futuristic cityscape in anime style'',
      ''Magical girl casting a powerful spell'',
      ''Steampunk airship flying through clouds'',
      ''A samurai warrior in a neon-lit Tokyo street'',
      ''Anime character enjoying a bowl of ramen'',
      ''A serene Japanese garden with a pagoda'',
      ''Gundam-style mech in a dynamic pose'',
      ''A ninja moving silently through the shadows'',
      ''Fantasy knight with a glowing sword'',
      ''Cyberpunk hacker in a high-tech hideout'']"

section \<open>JSON.stringify on a list of wallpapers\<close>

text \<open>
  \<open>QuoteJSONString\<close>: the seven short escapes, a \<open>\u\<close> escape with four lower-case
  hexadecimal digits for the other code units below \<open>0x20\<close> and for a surrogate that is
  not part of a pair, and every other code unit as it is.
\<close>

definition hex_digit :: "nat \<Rightarrow> 16 word" where
  "hex_digit n = (if n < 10 then of_nat (48 + n) else of_nat (87 + n))"

definition UnicodeEscape :: "16 word \<Rightarrow> jsstring" where
  "UnicodeEscape c =
     (let n = unat c
      in [0x5C, 0x75, hex_digit (n div 4096 mod 16), hex_digit (n div 256 mod 16),
          hex_digit (n div 16 mod 16), hex_digit (n mod 16)])"

definition is_leading_surrogate :: "16 word \<Rightarrow> bool" where
  "is_leading_surrogate c \<longleftrightarrow> 0xD800 \<le> c \<and> c \<le> 0xDBFF"

definition is_trailing_surrogate :: "16 word \<Rightarrow> bool" where
  "is_trailing_surrogate c \<longleftrightarrow> 0xDC00 \<le> c \<and> c \<le> 0xDFFF"

definition quote_unit :: "16 word \<Rightarrow> jsstring" where
  "quote_unit c =
     (if c = 0x08 then [0x5C, 0x62]
      else if c = 0x09 then [0x5C, 0x74]
      else if c = 0x0A then [0x5C, 0x6E]
      else if c = 0x0C then [0x5C, 0x66]
      else if c = 0x0D then [0x5C, 0x72]
      else if c = 0x22 then [0x5C, 0x22]
      else if c = 0x5C then [0x5C, 0x5C]
      else if c < 0x20 \<or> is_leading_surrogate c \<or> is_trailing_surrogate c then UnicodeEscape c
      else [c])"

fun quote_units :: "jsstring \<Rightarrow> jsstring" where
  "quote_units [] = []"
| "quote_units [c] = quote_unit c"
| "quote_units (c # d # s) =
     (if is_leading_surrogate c \<and> is_trailing_surrogate d then c # d # quote_units s
      else quote_unit c @ quote_units (d # s))"

definition QuoteJSONString :: "jsstring \<Rightarrow> jsstring" where
  "QuoteJSONString s = 0x22 # quote_units s @ [0x22]"

fun join_comma :: "jsstring list \<Rightarrow> jsstring" where
  "join_comma [] = []"
| "join_comma [v] = v"
| "join_comma (v # w # vs) = v @ 0x2C # join_comma (w # vs)"

definition SerializeJSONProperty :: "jsstring \<times> jsstring \<Rightarrow> jsstring" where
  "SerializeJSONProperty kv = QuoteJSONString (fst kv) @ 0x3A # snd kv"

definition SerializeJSONObject :: "(jsstring \<times> jsstring) list \<Rightarrow> jsstring" where
  "SerializeJSONObject members = 0x7B # join_comma (map SerializeJSONProperty members) @ [0x7D]"

definition SerializeJSONArray :: "jsstring list \<Rightarrow> jsstring" where
  "SerializeJSONArray elements = 0x5B # join_comma elements @ [0x5D]"

text \<open>
  The properties of a wallpaper in the order the object literals of the source create
  them, each with its serialised value.
\<close>

definition wallpaper_properties :: "Wallpaper \<Rightarrow> (jsstring \<times> jsstring) list" where
  "wallpaper_properties w =
     [(str ''id'', QuoteJSONString (id_field w)),
      (str ''prompt'', QuoteJSONString (prompt w)),
      (str ''imageUrl'', QuoteJSONString (imageUrl w)),
      (str ''aspectRatio'', QuoteJSONString (ratio_string (aspectRatio w))),
      (str ''timestamp'', toString (timestamp w)),
      (str ''source'', QuoteJSONString (source_string (source w)))]"

definition JSON_stringify :: "Wallpaper list \<Rightarrow> jsstring" where
  "JSON_stringify ws = SerializeJSONArray (map (\<lambda>w. SerializeJSONObject (wallpaper_properties w)) ws)"

section \<open>Persistence: saveData\<close>

definition setItem :: "jsstring \<Rightarrow> jsstring \<Rightarrow> state \<Rightarrow> state" where
  "setItem k v st =
     st\<lparr>localStorage := (localStorage st)(k \<mapsto> v), effects := effects st @ [SetItem k v]\<rparr>"

definition saveData :: "state \<Rightarrow> state" where
  "saveData st =
     (let st1 = setItem (str ''userHistory'') (JSON_stringify (wallpapers_of (history st))) st;
          st2 = setItem (str ''demoHistory'') (JSON_stringify (wallpapers_of (demoHistory st1))) st1
      in setItem (str ''allGenerations'') (JSON_stringify (wallpapers_of (allGenerations st2))) st2)"

section \<open>JSON.parse\<close>

text \<open>
  The values of JSON. A number is kept as the decimal it is written as: \<open>JNumber m e\<close> is
  \<open>m \<times> 10\<^sup>e\<close>. The members of an object are kept in the order of the text.
\<close>

datatype json =
  JNull
| JBool bool
| JNumber int int
| JString jsstring
| JArray "json list"
| JObject "(jsstring \<times> json) list"

text \<open>
  The parser reads the text one code unit at a time. It keeps a stack of the arrays and
  objects that are open, each with what has been read of it (most recent first), and the
  place where it is in the grammar.
\<close>

datatype frame =
  InArray "json list"
| InObject "(jsstring \<times> json) list"
| InMember "(jsstring \<times> json) list" jsstring
| Done json

datatype mode =
  Value
| FirstElement
| FirstMember
| Member
| Colon
| After
| Str bool jsstring
| Esc bool jsstring
| Hex bool jsstring nat nat
| Lit jsstring json
| NMinus
| NZero bool
| NInt bool nat
| NPoint bool nat
| NFrac bool nat nat
| NExp bool nat nat
| NExpSign bool nat nat bool
| NExpDigits bool nat nat bool nat

definition is_json_ws :: "16 word \<Rightarrow> bool" where
  "is_json_ws c \<longleftrightarrow> c = 0x20 \<or> c = 0x09 \<or> c = 0x0A \<or> c = 0x0D"

definition digit_val :: "16 word \<Rightarrow> nat option" where
  "digit_val c = (if 0x30 \<le> c \<and> c \<le> 0x39 then Some (unat c - 48) else None)"

definition hex_val :: "16 word \<Rightarrow> nat option" where
  "hex_val c =
     (if 0x30 \<le> c \<and> c \<le> 0x39 then Some (unat c - 48)
      else if 0x41 \<le> c \<and> c \<le> 0x46 then Some (unat c - 55)
      else if 0x61 \<le> c \<and> c \<le> 0x66 then Some (unat c - 87)
      else None)"

text \<open>The number written with the sign, the digits, the count of digits after the point
  and the exponent given.\<close>

definition number :: "bool \<Rightarrow> nat \<Rightarrow> nat \<Rightarrow> bool \<Rightarrow> nat \<Rightarrow> json" where
  "number neg m fd eneg ev =
     JNumber (if neg then - int m else int m) ((if eneg then - int ev else int ev) - int fd)"

text \<open>A value is complete: it goes where the innermost open frame expects it.\<close>

fun complete :: "json \<Rightarrow> frame list \<Rightarrow> frame list option" where
  "complete v [] = Some [Done v]"
| "complete v (InArray es # r) = Some (InArray (v # es) # r)"
| "complete v (InMember ms k # r) = Some (InObject ((k, v) # ms) # r)"
| "complete v (InObject ms # r) = None"
| "complete v (Done u # r) = None"

definition completed :: "json \<Rightarrow> frame list \<Rightarrow> (mode \<times> frame list) option" where
  "completed v stk = map_option (Pair After) (complete v stk)"

text \<open>The first code unit of a value.\<close>

definition start_value :: "16 word \<Rightarrow> frame list \<Rightarrow> (mode \<times> frame list) option" where
  "start_value c stk =
     (if c = 0x22 then Some (Str False [], stk)
      else if c = 0x2D then Some (NMinus, stk)
      else if c = 0x30 then Some (NZero False, stk)
      else if 0x31 \<le> c \<and> c \<le> 0x39 then Some (NInt False (unat c - 48), stk)
      else if c = 0x74 then Some (Lit (str ''rue'') (JBool True), stk)
      else if c = 0x66 then Some (Lit (str ''alse'') (JBool False), stk)
      else if c = 0x6E then Some (Lit (str ''ull'') JNull, stk)
      else if c = 0x5B then Some (FirstElement, InArray [] # stk)
      else if c = 0x7B then Some (FirstMember, InObject [] # stk)
      else None)"

text \<open>What may follow a complete value: white space, a comma, or the end of the frame.\<close>

definition after_value :: "16 word \<Rightarrow> frame list \<Rightarrow> (mode \<times> frame list) option" where
  "after_value c stk =
     (if is_json_ws c then Some (After, stk)
      else if c = 0x2C then
        (case stk of
           InArray es # r \<Rightarrow> Some (Value, stk)
         | InObject ms # r \<Rightarrow> Some (Member, stk)
         | _ \<Rightarrow> None)
      else if c = 0x5D then
        (case stk of InArray es # r \<Rightarrow> completed (JArray (rev es)) r | _ \<Rightarrow> None)
      else if c = 0x7D then
        (case stk of InObject ms # r \<Rightarrow> completed (JObject (rev ms)) r | _ \<Rightarrow> None)
      else None)"

text \<open>A number ends at the first code unit that cannot continue it.\<close>

definition end_number :: "json \<Rightarrow> 16 word \<Rightarrow> frame list \<Rightarrow> (mode \<times> frame list) option" where
  "end_number v c stk = (case complete v stk of None \<Rightarrow> None | Some stk' \<Rightarrow> after_value c stk')"

definition end_string :: "bool \<Rightarrow> jsstring \<Rightarrow> frame list \<Rightarrow> (mode \<times> frame list) option" where
  "end_string is_name s stk =
     (if is_name then
        (case stk of InObject ms # r \<Rightarrow> Some (Colon, InMember ms s # r) | _ \<Rightarrow> None)
      else completed (JString s) stk)"

definition unescape :: "16 word \<Rightarrow> 16 word option" where
  "unescape c =
     (if c = 0x22 then Some 0x22
      else if c = 0x5C then Some 0x5C
      else if c = 0x2F then Some 0x2F
      else if c = 0x62 then Some 0x08
      else if c = 0x66 then Some 0x0C
      else if c = 0x6E then Some 0x0A
      else if c = 0x72 then Some 0x0D
      else if c = 0x74 then Some 0x09
      else None)"

fun step :: "mode \<times> frame list \<Rightarrow> 16 word \<Rightarrow> (mode \<times> frame list) option" where
  "step (Value, stk) c = (if is_json_ws c then Some (Value, stk) else start_value c stk)"
| "step (FirstElement, stk) c =
     (if is_json_ws c then Some (FirstElement, stk)
      else if c = 0x5D then
        (case stk of InArray es # r \<Rightarrow> completed (JArray (rev es)) r | _ \<Rightarrow> None)
      else start_value c stk)"
| "step (FirstMember, stk) c =
     (if is_json_ws c then Some (FirstMember, stk)
      else if c = 0x22 then Some (Str True [], stk)
      else if c = 0x7D then
        (case stk of InObject ms # r \<Rightarrow> completed (JObject (rev ms)) r | _ \<Rightarrow> None)
      else None)"
| "step (Member, stk) c =
     (if is_json_ws c then Some (Member, stk)
      else if c = 0x22 then Some (Str True [], stk)
      else None)"
| "step (Colon, stk) c =
     (if is_json_ws c then Some (Colon, stk)
      else if c = 0x3A then Some (Value, stk)
      else None)"
| "step (After, stk) c = after_value c stk"
| "step (Str is_name acc, stk) c =
     (if c = 0x22 then end_string is_name (rev acc) stk
      else if c = 0x5C then Some (Esc is_name acc, stk)
      else if c < 0x20 then None
      else Some (Str is_name (c # acc), stk))"
| "step (Esc is_name acc, stk) c =
     (if c = 0x75 then Some (Hex is_name acc 0 0, stk)
      else (case unescape c of None \<Rightarrow> None | Some u \<Rightarrow> Some (Str is_name (u # acc), stk)))"
| "step (Hex is_name acc n v, stk) c =
     (case hex_val c of
        None \<Rightarrow> None
      | Some h \<Rightarrow>
          if n = 3 then Some (Str is_name (of_nat (v * 16 + h) # acc), stk)
          else Some (Hex is_name acc (Suc n) (v * 16 + h), stk))"
| "step (Lit rest v, stk) c =
     (case rest of
        [] \<Rightarrow> None
      | x # xs \<Rightarrow>
          if c \<noteq> x then None
          else if xs = [] then completed v stk
          else Some (Lit xs v, stk))"
| "step (NMinus, stk) c =
     (if c = 0x30 then Some (NZero True, stk)
      else if 0x31 \<le> c \<and> c \<le> 0x39 then Some (NInt True (unat c - 48), stk)
      else None)"
| "step (NZero neg, stk) c =
     (if c = 0x2E then Some (NPoint neg 0, stk)
      else if c = 0x65 \<or> c = 0x45 then Some (NExp neg 0 0, stk)
      else end_number (number neg 0 0 False 0) c stk)"
| "step (NInt neg m, stk) c =
     (case digit_val c of
        Some d \<Rightarrow> Some (NInt neg (m * 10 + d), stk)
      | None \<Rightarrow>
          if c = 0x2E then Some (NPoint neg m, stk)
          else if c = 0x65 \<or> c = 0x45 then Some (NExp neg m 0, stk)
          else end_number (number neg m 0 False 0) c stk)"
| "step (NPoint neg m, stk) c =
     (case digit_val c of
        Some d \<Rightarrow> Some (NFrac neg (m * 10 + d) 1, stk)
      | None \<Rightarrow> None)"
| "step (NFrac neg m fd, stk) c =
     (case digit_val c of
        Some d \<Rightarrow> Some (NFrac neg (m * 10 + d) (Suc fd), stk)
      | None \<Rightarrow>
          if c = 0x65 \<or> c = 0x45 then Some (NExp neg m fd, stk)
          else end_number (number neg m fd False 0) c stk)"
| "step (NExp neg m fd, stk) c =
     (case digit_val c of
        Some d \<Rightarrow> Some (NExpDigits neg m fd False d, stk)
      | None \<Rightarrow>
          if c = 0x2B then Some (NExpSign neg m fd False, stk)
          else if c = 0x2D then Some (NExpSign neg m fd True, stk)
          else None)"
| "step (NExpSign neg m fd eneg, stk) c =
     (case digit_val c of
        Some d \<Rightarrow> Some (NExpDigits neg m fd eneg d, stk)
      | None \<Rightarrow> None)"
| "step (NExpDigits neg m fd eneg ev, stk) c =
     (case digit_val c of
        Some d \<Rightarrow> Some (NExpDigits neg m fd eneg (ev * 10 + d), stk)
      | None \<Rightarrow> end_number (number neg m fd eneg ev) c stk)"

fun steps :: "mode \<times> frame list \<Rightarrow> jsstring \<Rightarrow> (mode \<times> frame list) option" where
  "steps st [] = Some st"
| "steps st (c # cs) = (case step st c of None \<Rightarrow> None | Some st' \<Rightarrow> steps st' cs)"

text \<open>
  At the end of the text a number that is being read is complete, and the text is a JSON
  text when exactly one value has been read.
\<close>

fun at_end :: "mode \<times> frame list \<Rightarrow> frame list option" where
  "at_end (After, stk) = Some stk"
| "at_end (NZero neg, stk) = complete (number neg 0 0 False 0) stk"
| "at_end (NInt neg m, stk) = complete (number neg m 0 False 0) stk"
| "at_end (NFrac neg m fd, stk) = complete (number neg m fd False 0) stk"
| "at_end (NExpDigits neg m fd eneg ev, stk) = complete (number neg m fd eneg ev) stk"
| "at_end (other, stk) = None"

text \<open>\<open>JSON.parse\<close>: \<open>None\<close> when it throws \<open>SyntaxError\<close>.\<close>

definition JSON_parse :: "jsstring \<Rightarrow> json option" where
  "JSON_parse text =
     (case steps (Value, []) text of
        None \<Rightarrow> None
      | Some st \<Rightarrow> (case at_end st of Some [Done v] \<Rightarrow> Some v | _ \<Rightarrow> None))"

section \<open>The values of type Wallpaper[]\<close>

text \<open>
  \<open>loadData\<close> assigns what \<open>JSON.parse\<close> returns to a variable of type \<open>Wallpaper[]\<close>,
  unchecked. The values of that type the model has are the arrays of objects with the six
  properties of the interface, in the order of the object literals of the source, each of
  its declared type, with an integer for \<open>timestamp\<close>. \<open>as_wallpapers\<close> reads such a
  value, and is \<open>None\<close> on any other.
\<close>

definition wallpaper_json :: "Wallpaper \<Rightarrow> json" where
  "wallpaper_json w =
     JObject
       [(str ''id'', JString (id_field w)),
        (str ''prompt'', JString (prompt w)),
        (str ''imageUrl'', JString (imageUrl w)),
        (str ''aspectRatio'', JString (ratio_string (aspectRatio w))),
        (str ''timestamp'', JNumber (timestamp w) 0),
        (str ''source'', JString (source_string (source w)))]"

fun get_string :: "json \<Rightarrow> jsstring option" where
  "get_string (JString s) = Some s"
| "get_string other = None"

fun get_integer :: "json \<Rightarrow> int option" where
  "get_integer (JNumber m e) =
     (if 0 \<le> e then Some (m * 10 ^ nat e)
      else if m mod 10 ^ nat (- e) = 0 then Some (m div 10 ^ nat (- e))
      else None)"
| "get_integer other = None"

definition ratio_of_string :: "jsstring \<Rightarrow> AspectRatio option" where
  "ratio_of_string s =
     (if s = str ''9:16'' then Some R9_16
      else if s = str ''1:1'' then Some R1_1
      else if s = str ''16:9'' then Some R16_9
      else None)"

definition source_of_string :: "jsstring \<Rightarrow> Source option" where
  "source_of_string s =
     (if s = str ''user'' then Some User
      else if s = str ''demo'' then Some Demo
      else None)"

definition as_wallpaper :: "json \<Rightarrow> Wallpaper option" where
  "as_wallpaper j =
     (case j of
        JObject ms \<Rightarrow>
          if map fst ms = [str ''id'', str ''prompt'', str ''imageUrl'', str ''aspectRatio'',
                           str ''timestamp'', str ''source'']
          then
            Option.bind (get_string (snd (ms ! 0))) (\<lambda>i.
            Option.bind (get_string (snd (ms ! 1))) (\<lambda>p.
            Option.bind (get_string (snd (ms ! 2))) (\<lambda>u.
            Option.bind (Option.bind (get_string (snd (ms ! 3))) ratio_of_string) (\<lambda>a.
            Option.bind (get_integer (snd (ms ! 4))) (\<lambda>t.
            Option.bind (Option.bind (get_string (snd (ms ! 5))) source_of_string) (\<lambda>s.
            Some \<lparr>id_field = i, prompt = p, imageUrl = u, aspectRatio = a,
                  timestamp = t, source = s\<rparr>))))))
          else None
      | _ \<Rightarrow> None)"

definition as_wallpapers :: "json \<Rightarrow> Wallpaper list option" where
  "as_wallpapers j = (case j of JArray es \<Rightarrow> those (map as_wallpaper es) | _ \<Rightarrow> None)"

section \<open>Persistence: loadData\<close>

text \<open>
  The three list variables of the module. Each line of \<open>loadData\<close> assigns what
  \<open>JSON.parse\<close> returns to its variable, unchecked, and the next line runs. A variable
  that holds a \<open>Wallpaper[]\<close> has its list in the state. A variable that has been given
  a value of another shape (\<open>[1]\<close>, \<open>null\<close>, an object) holds that value, which is kept
  beside the state under the name of the variable.
\<close>

datatype list_variable = Var_history | Var_demoHistory | Var_allGenerations

record memory =
  typed :: state
  untyped :: "list_variable \<rightharpoonup> json"

fun assign_list :: "list_variable \<Rightarrow> obj list \<Rightarrow> state \<Rightarrow> state" where
  "assign_list Var_history v st = st\<lparr>history := v\<rparr>"
| "assign_list Var_demoHistory v st = st\<lparr>demoHistory := v\<rparr>"
| "assign_list Var_allGenerations v st = st\<lparr>allGenerations := v\<rparr>"

text \<open>
  The assignment \<open>list = JSON.parse(saved)\<close> of a parsed value. The objects that
  \<open>JSON.parse\<close> creates are new ones.
\<close>

definition assign_parsed :: "list_variable \<Rightarrow> json \<Rightarrow> memory \<Rightarrow> memory" where
  "assign_parsed x j m =
     (case as_wallpapers j of
        Some ws \<Rightarrow>
          \<lparr>typed = assign_list x (enumerate (next_addr (typed m)) ws)
                     ((typed m)\<lparr>next_addr := next_addr (typed m) + length ws\<rparr>),
           untyped = (untyped m)(x := None)\<rparr>
      | None \<Rightarrow> \<lparr>typed = typed m, untyped = (untyped m)(x \<mapsto> j)\<rparr>)"

text \<open>
  \<open>loadData\<close> returns, or \<open>JSON.parse\<close> throws and the exception leaves \<open>loadData\<close> with
  the assignments made so far: nothing in \<open>loadData\<close> or in its caller catches it.
\<close>

datatype exn = SyntaxError

datatype outcome = Returns memory | Throws exn memory

definition getItem :: "jsstring \<Rightarrow> state \<Rightarrow> jsstring option" where
  "getItem k st = localStorage st k"

text \<open>
  One line \<open>if (saved) list = JSON.parse(saved)\<close>: \<open>null\<close> and the empty string are
  falsy.
\<close>

definition load_list :: "jsstring option \<Rightarrow> list_variable \<Rightarrow> memory \<Rightarrow> outcome" where
  "load_list saved x m =
     (case saved of
        None \<Rightarrow> Returns m
      | Some text \<Rightarrow>
          if text = [] then Returns m
          else
            (case JSON_parse text of
               None \<Rightarrow> Throws SyntaxError m
             | Some j \<Rightarrow> Returns (assign_parsed x j m)))"

fun and_then :: "outcome \<Rightarrow> (memory \<Rightarrow> outcome) \<Rightarrow> outcome" where
  "and_then (Returns m) f = f m"
| "and_then (Throws e m) f = Throws e m"

text \<open>On entry the three variables hold the lists of the state.\<close>

definition loadData :: "state \<Rightarrow> outcome" where
  "loadData st =
     (let savedHistory = getItem (str ''userHistory'') st;
          savedDemoHistory = getItem (str ''demoHistory'') st;
          savedAllGenerations = getItem (str ''allGenerations'') st
      in and_then
           (and_then (load_list savedHistory Var_history \<lparr>typed = st, untyped = Map.empty\<rparr>)
                     (load_list savedDemoHistory Var_demoHistory))
           (load_list savedAllGenerations Var_allGenerations))"

section \<open>The image generation client\<close>

text \<open>
  \<open>generateWallpaper\<close> sends the decorated prompt and the aspect ratio; the answer of the
  service is an input of the model: \<open>Some\<close> of the image bytes (base64), or \<open>None\<close> when the
  call throws, which the \<open>catch\<close> turns into \<open>null\<close>.
\<close>

definition generateWallpaper_request :: "jsstring \<Rightarrow> AspectRatio \<Rightarrow> state \<Rightarrow> state" where
  "generateWallpaper_request p ratio st =
     st\<lparr>effects := effects st @
        [GenerateImages (p @ str '', anime style, high resolution, wallpaper'') ratio]\<rparr>"

definition generateWallpaper_result :: "jsstring option \<Rightarrow> jsstring option" where
  "generateWallpaper_result response =
     (case response of
        None \<Rightarrow> None
      | Some base64Image \<Rightarrow> Some (str ''data:image/jpeg;base64,'' @ base64Image))"

section \<open>handleFormSubmit\<close>

text \<open>
  The handler runs up to its \<open>await\<close>, and its continuation runs when the request has
  settled; other handlers may run in between. \<open>handleFormSubmit_start\<close> is the first part:
  it returns at once on a prompt that is empty after trimming, and otherwise sends the
  request and waits, holding the trimmed prompt. \<open>handleFormSubmit_resume\<close> is the
  continuation, on the state it finds then; it reads the clock twice, for \<open>id\<close> and for
  \<open>timestamp\<close>.
\<close>

datatype suspended = Returned state | Awaiting jsstring state

definition handleFormSubmit_start :: "state \<Rightarrow> suspended" where
  "handleFormSubmit_start st =
     (let p = trim (promptInput st)
      in if p = [] then Returned st
         else Awaiting p (generateWallpaper_request p (selectedAspectRatio st) st))"

definition handleFormSubmit_resume ::
  "jsstring \<Rightarrow> jsstring option \<Rightarrow> int \<Rightarrow> int \<Rightarrow> state \<Rightarrow> state" where
  "handleFormSubmit_resume p response now_id now_ts st =
     (case generateWallpaper_result response of
        None \<Rightarrow> st
      | Some url \<Rightarrow>
          if url = [] then st
          else
            let newWallpaper =
                  (next_addr st,
                   \<lparr>id_field = toString now_id, prompt = p, imageUrl = url,
                    aspectRatio = selectedAspectRatio st, timestamp = now_ts, source = User\<rparr>);
                st1 = st\<lparr>history := history st @ [newWallpaper], next_addr := Suc (next_addr st)\<rparr>;
                st2 = st1\<lparr>allGenerations := allGenerations st1 @ [newWallpaper]\<rparr>;
                st3 = saveData st2
            in st3\<lparr>promptInput := []\<rparr>)"

text \<open>The handler when nothing else runs while it waits.\<close>

definition handleFormSubmit :: "jsstring option \<Rightarrow> int \<Rightarrow> int \<Rightarrow> state \<Rightarrow> state" where
  "handleFormSubmit response now_id now_ts st =
     (case handleFormSubmit_start st of
        Returned st' \<Rightarrow> st'
      | Awaiting p st' \<Rightarrow> handleFormSubmit_resume p response now_id now_ts st')"

definition handleAspectRatioChange :: "AspectRatio option \<Rightarrow> state \<Rightarrow> state" where
  "handleAspectRatioChange ratio st =
     (case ratio of None \<Rightarrow> st | Some r \<Rightarrow> st\<lparr>selectedAspectRatio := r\<rparr>)"

section \<open>generateLiveDemos\<close>

definition demoCount :: nat where
  "demoCount = 4"

definition demoAspectRatio :: AspectRatio where
  "demoAspectRatio = R9_16"

text \<open>
  \<open>[...PROMPT_POOL].sort(() => 0.5 - Math.random())\<close> leaves the pool in an arrangement
  that depends on the random numbers: the arrangement is an input of the model.
\<close>

definition initialPrompts :: "jsstring list \<Rightarrow> jsstring list" where
  "initialPrompts shuffled = take demoCount shuffled"

text \<open>
  The first part of the batch sends one request for each prompt, in the order of the
  prompts, all with the fixed aspect ratio.
\<close>

definition generateLiveDemos_start :: "jsstring list \<Rightarrow> state \<Rightarrow> state" where
  "generateLiveDemos_start prompts st =
     fold (\<lambda>p. generateWallpaper_request p demoAspectRatio) prompts st"

text \<open>
  A request settles at some later moment: \<open>Settled i r n\<^sub>1 n\<^sub>2\<close> says that the request of
  index \<open>i\<close> got the answer \<open>r\<close>, and that the two readings of the clock in its \<open>then\<close>
  callback gave \<open>n\<^sub>1\<close> and \<open>n\<^sub>2\<close>. The list of settlements of a batch is in the order in
  which the requests settled.
\<close>

datatype settlement =
  Settled (request: nat) (response: "jsstring option") (clock_id: int) (clock_ts: int)

definition then_callback :: "jsstring \<Rightarrow> nat \<Rightarrow> jsstring option \<Rightarrow> int \<Rightarrow> int \<Rightarrow> Wallpaper option" where
  "then_callback p i url now_id now_ts =
     (case url of
        None \<Rightarrow> None
      | Some u \<Rightarrow>
          if u = [] then None
          else Some \<lparr>id_field = str ''demo-'' @ toString now_id @ str ''-'' @ toString (int i),
                     prompt = p, imageUrl = u, aspectRatio = demoAspectRatio,
                     timestamp = now_ts, source = Demo\<rparr>)"

definition settlement_of :: "settlement list \<Rightarrow> nat \<Rightarrow> settlement option" where
  "settlement_of evs i = find (\<lambda>e. request e = i) evs"

text \<open>
  \<open>Promise.all\<close> is fulfilled when every promise of its argument is, with the array of
  their values at the indices of the promises; with a request that never settles it stays
  pending (\<open>None\<close>).
\<close>

definition Promise_all :: "jsstring list \<Rightarrow> settlement list \<Rightarrow> Wallpaper option list option" where
  "Promise_all prompts evs =
     those (map (\<lambda>(i, p).
                   map_option
                     (\<lambda>e. then_callback p i (generateWallpaper_result (response e))
                            (clock_id e) (clock_ts e))
                     (settlement_of evs i))
                (enumerate 0 prompts))"

fun filter_Boolean :: "'a option list \<Rightarrow> 'a list" where
  "filter_Boolean [] = []"
| "filter_Boolean (None # rs) = filter_Boolean rs"
| "filter_Boolean (Some w # rs) = w # filter_Boolean rs"

definition push_demo :: "Wallpaper \<Rightarrow> state \<Rightarrow> state" where
  "push_demo w st =
     (let wallpaper = (next_addr st, w);
          st1 = st\<lparr>demoHistory := demoHistory st @ [wallpaper], next_addr := Suc (next_addr st)\<rparr>
      in st1\<lparr>allGenerations := allGenerations st1 @ [wallpaper]\<rparr>)"

text \<open>
  The continuation of the batch, once \<open>Promise.all\<close> is fulfilled. (The object of a
  result gets its address here, when it enters the lists.)
\<close>

definition generateLiveDemos_resume :: "jsstring list \<Rightarrow> settlement list \<Rightarrow> state \<Rightarrow> state option" where
  "generateLiveDemos_resume prompts evs st =
     (case Promise_all prompts evs of
        None \<Rightarrow> None
      | Some rs \<Rightarrow>
          let results = filter_Boolean rs;
              st1 = fold push_demo results st
          in Some (if length results > 0 then saveData st1 else st1))"

definition generateLiveDemos :: "jsstring list \<Rightarrow> settlement list \<Rightarrow> state \<Rightarrow> state option" where
  "generateLiveDemos shuffled evs st =
     generateLiveDemos_resume (initialPrompts shuffled) evs
       (generateLiveDemos_start (initialPrompts shuffled) st)"

section \<open>refreshDemoPrompt\<close>

text \<open>\<open>Array.prototype.indexOf\<close>: the first index of the element, \<open>None\<close> for \<open>-1\<close>.\<close>

fun indexOf :: "'a list \<Rightarrow> 'a \<Rightarrow> nat option" where
  "indexOf [] x = None"
| "indexOf (y # ys) x = (if y = x then Some 0 else map_option Suc (indexOf ys x))"

text \<open>
  The \<open>do \<dots> while\<close> loop. The random numbers are an input: \<open>rand k\<close> is the value of
  \<open>Math.floor(Math.random() * PROMPT_POOL.length)\<close> at the \<open>k\<close>-th evaluation, an index
  of the pool since \<open>Math.random()\<close> is below 1. The loop may run forever; \<open>None\<close> is the
  value of a run that does.
\<close>

partial_function (option) draw_newPrompt ::
  "jsstring list \<Rightarrow> (nat \<Rightarrow> nat) \<Rightarrow> jsstring list \<Rightarrow> nat \<Rightarrow> jsstring option" where
  "draw_newPrompt pool rand prompts k =
     (let newPrompt = pool ! rand k
      in if newPrompt \<in> set prompts then draw_newPrompt pool rand prompts (Suc k)
         else Some newPrompt)"

text \<open>The function with the pool as a parameter, and with the pool of the source.\<close>

definition refreshDemoPrompt_from ::
  "jsstring list \<Rightarrow> (nat \<Rightarrow> nat) \<Rightarrow> jsstring \<Rightarrow> state \<Rightarrow> state option" where
  "refreshDemoPrompt_from pool rand usedPrompt st =
     (case indexOf (demoPrompts st) usedPrompt of
        None \<Rightarrow> Some st
      | Some index \<Rightarrow>
          (case draw_newPrompt pool rand (demoPrompts st) 0 of
             None \<Rightarrow> None
           | Some newPrompt \<Rightarrow> Some (st\<lparr>demoPrompts := (demoPrompts st)[index := newPrompt]\<rparr>)))"

definition refreshDemoPrompt :: "(nat \<Rightarrow> nat) \<Rightarrow> jsstring \<Rightarrow> state \<Rightarrow> state option" where
  "refreshDemoPrompt = refreshDemoPrompt_from PROMPT_POOL"

section \<open>Runs of the program\<close>

text \<open>
  Between two suspension points a handler runs alone. A run of the program is a sequence
  of such uninterrupted pieces, in any order and with any inputs: typing into the prompt,
  choosing a ratio, the first part of a submit, the continuation of a submit, the first
  part of a demo batch, its continuation. A continuation whose \<open>await\<close> never returns
  does nothing.
\<close>

datatype action =
  TypePrompt jsstring
| ChooseRatio "AspectRatio option"
| SubmitStart
| SubmitSettles jsstring "jsstring option" int int
| DemoStart "jsstring list"
| DemoSettles "jsstring list" "settlement list"

fun perform :: "action \<Rightarrow> state \<Rightarrow> state" where
  "perform (TypePrompt s) st = st\<lparr>promptInput := s\<rparr>"
| "perform (ChooseRatio r) st = handleAspectRatioChange r st"
| "perform SubmitStart st =
     (case handleFormSubmit_start st of Returned st' \<Rightarrow> st' | Awaiting p st' \<Rightarrow> st')"
| "perform (SubmitSettles p r now_id now_ts) st = handleFormSubmit_resume p r now_id now_ts st"
| "perform (DemoStart prompts) st = generateLiveDemos_start prompts st"
| "perform (DemoSettles prompts evs) st =
     (case generateLiveDemos_resume prompts evs st of None \<Rightarrow> st | Some st' \<Rightarrow> st')"

definition run :: "action list \<Rightarrow> state \<Rightarrow> state" where
  "run acts st = fold perform acts st"

section \<open>Notions used in the statements\<close>

text \<open>
  Every request of a batch of \<open>n\<close> prompts settles, and settles once: the indices of the
  settlements are \<open>0, \<dots>, n - 1\<close> in some order.
\<close>

definition settles_once :: "nat \<Rightarrow> settlement list \<Rightarrow> bool" where
  "settles_once n evs \<longleftrightarrow> distinct (map request evs) \<and> set (map request evs) = set [0..<n]"

definition succeeded_at :: "settlement list \<Rightarrow> nat \<Rightarrow> bool" where
  "succeeded_at evs i = (case settlement_of evs i of None \<Rightarrow> False | Some e \<Rightarrow> response e \<noteq> None)"

text \<open>The value of the promise of index \<open>i\<close>, and the wallpapers a batch commits.\<close>

definition result_at :: "jsstring list \<Rightarrow> settlement list \<Rightarrow> nat \<Rightarrow> Wallpaper option" where
  "result_at prompts evs i =
     (case settlement_of evs i of
        None \<Rightarrow> None
      | Some e \<Rightarrow> then_callback (prompts ! i) i (generateWallpaper_result (response e))
                    (clock_id e) (clock_ts e))"

definition batch_results :: "jsstring list \<Rightarrow> settlement list \<Rightarrow> Wallpaper list" where
  "batch_results prompts evs =
     (case Promise_all prompts evs of None \<Rightarrow> [] | Some rs \<Rightarrow> filter_Boolean rs)"

text \<open>The writes to the store made after the state \<open>st\<close>, up to the later state \<open>st'\<close>.\<close>

definition writes_since :: "state \<Rightarrow> state \<Rightarrow> effect list" where
  "writes_since st st' = filter is_write (drop (length (effects st)) (effects st'))"

text \<open>
  The prompts of the successful requests of a batch in the order in which the requests
  settled.
\<close>

definition settlement_order :: "jsstring list \<Rightarrow> settlement list \<Rightarrow> jsstring list" where
  "settlement_order prompts evs =
     map (\<lambda>e. prompts ! request e) (filter (\<lambda>e. response e \<noteq> None) evs)"

text \<open>
  What the lists of a state have in common when only the handlers have filled them: the
  entities of \<open>allGenerations\<close> with source \<open>user\<close> are \<open>history\<close>, those with source
  \<open>demo\<close> are \<open>demoHistory\<close>, and the objects are all different and older than the
  allocation counter.
\<close>

definition consistent :: "state \<Rightarrow> bool" where
  "consistent st \<longleftrightarrow>
     filter (\<lambda>w. source (snd w) = User) (allGenerations st) = history st
   \<and> filter (\<lambda>w. source (snd w) = Demo) (allGenerations st) = demoHistory st
   \<and> distinct (map fst (allGenerations st))
   \<and> (\<forall>w \<in> set (allGenerations st). fst w < next_addr st)"

text \<open>
  What \<open>loadData\<close> finds under a key: nothing (no entry, or the empty string, both
  falsy), a text that \<open>JSON.parse\<close> rejects, the text of a list of wallpapers, or the
  text of another value.
\<close>

datatype stored = Absent | Unparsable | Holds "Wallpaper list" | Foreign json

definition stored_under :: "jsstring \<Rightarrow> state \<Rightarrow> stored" where
  "stored_under k st =
     (case getItem k st of
        None \<Rightarrow> Absent
      | Some text \<Rightarrow>
          if text = [] then Absent
          else
            (case JSON_parse text of
               None \<Rightarrow> Unparsable
             | Some j \<Rightarrow> (case as_wallpapers j of None \<Rightarrow> Foreign j | Some ws \<Rightarrow> Holds ws)))"

text \<open>
  What a list variable holds: a list of wallpapers (the fields of its entities, in order)
  or a value of another shape.
\<close>

datatype held = Wallpapers "Wallpaper list" | Other json

fun list_of :: "list_variable \<Rightarrow> state \<Rightarrow> obj list" where
  "list_of Var_history st = history st"
| "list_of Var_demoHistory st = demoHistory st"
| "list_of Var_allGenerations st = allGenerations st"

definition held_by :: "list_variable \<Rightarrow> memory \<Rightarrow> held" where
  "held_by x m =
     (case untyped m x of
        None \<Rightarrow> Wallpapers (wallpapers_of (list_of x (typed m)))
      | Some j \<Rightarrow> Other j)"

text \<open>
  What a variable holds after its line has run without an exception: the value stored
  under its key, or what it held before when nothing is stored.
\<close>

fun after_reading :: "stored \<Rightarrow> held \<Rightarrow> held" where
  "after_reading (Holds ws) old = Wallpapers ws"
| "after_reading (Foreign j) old = Other j"
| "after_reading Absent old = old"
| "after_reading Unparsable old = old"

text \<open>A variable has not been assigned to: it holds the very list it held in \<open>st\<close>.\<close>

definition untouched :: "list_variable \<Rightarrow> state \<Rightarrow> memory \<Rightarrow> bool" where
  "untouched x st m \<longleftrightarrow> list_of x (typed m) = list_of x st \<and> untyped m x = None"

subsection \<open>Example inputs\<close>

definition example_submit_state :: state where
  "example_submit_state =
     (initial_state Map.empty)
       \<lparr>promptInput := str ''  Cute anime girl with cherry blossoms '', selectedAspectRatio := R1_1\<rparr>"

text \<open>
  A submit with \<open>1:1\<close> selected, and a click on \<open>16:9\<close> while its request is pending
  (the ratio buttons are enabled all the time); the request then gives an image.
\<close>

definition example_ratio_change :: "action list" where
  "example_ratio_change =
     [TypePrompt (str ''Cute anime girl with cherry blossoms''), ChooseRatio (Some R1_1), SubmitStart,
      ChooseRatio (Some R16_9),
      SubmitSettles (str ''Cute anime girl with cherry blossoms'') (Some (str ''QQ=='')) 1000 1001]"

definition example_blank_state :: state where
  "example_blank_state = (initial_state Map.empty)\<lparr>promptInput := [0x20, 0x09, 0x3000, 0x0A]\<rparr>"

definition example_prompts :: "jsstring list" where
  "example_prompts = [str ''A'', str ''B'', str ''C'', str ''D'']"

text \<open>The request for \<open>B\<close> fails; the others succeed, the third one first.\<close>

definition example_settlements :: "settlement list" where
  "example_settlements =
     [Settled 2 (Some (str ''Qw=='')) 1003 1003, Settled 0 (Some (str ''QQ=='')) 1005 1005,
      Settled 1 None 0 0, Settled 3 (Some (str ''RA=='')) 1009 1010]"

definition example_rotating_state :: state where
  "example_rotating_state = (initial_state Map.empty)\<lparr>demoPrompts := take 3 PROMPT_POOL\<rparr>"

text \<open>A random source that draws the entries of the pool of the source in turn.\<close>

definition round_robin :: "nat \<Rightarrow> nat" where
  "round_robin k = k mod length PROMPT_POOL"

definition example_wallpaper :: Wallpaper where
  "example_wallpaper =
     \<lparr>id_field = str ''demo-1005-0'', prompt = str ''A'', imageUrl = str ''data:image/jpeg;base64,QQ=='',
      aspectRatio = R9_16, timestamp = 1005, source = Demo\<rparr>"

text \<open>
  Stores with a broken value under the first, the second and the third key, and a
  store with good values. In the second, the text under \<open>userHistory\<close> parses, to an
  array that holds a number.
\<close>

definition store_broken_first :: "jsstring \<rightharpoonup> jsstring" where
  "store_broken_first =
     [str ''userHistory'' \<mapsto> str ''{'',
      str ''demoHistory'' \<mapsto> JSON_stringify [example_wallpaper]]"

definition store_broken_second :: "jsstring \<rightharpoonup> jsstring" where
  "store_broken_second =
     [str ''userHistory'' \<mapsto> str ''[1]'',
      str ''demoHistory'' \<mapsto> str ''{'']"

definition store_broken_third :: "jsstring \<rightharpoonup> jsstring" where
  "store_broken_third = [str ''allGenerations'' \<mapsto> str ''undefined'']"

definition store_good :: "jsstring \<rightharpoonup> jsstring" where
  "store_good =
     [str ''demoHistory'' \<mapsto> JSON_stringify [example_wallpaper],
      str ''allGenerations'' \<mapsto> JSON_stringify [example_wallpaper]]"

section \<open>Properties of the handlers\<close>

subsection \<open>What saveData and a request leave alone\<close>

lemma saveData_lists [simp]:
  "history (saveData st) = history st"
  "demoHistory (saveData st) = demoHistory st"
  "allGenerations (saveData st) = allGenerations st"
  "demoPrompts (saveData st) = demoPrompts st"
  "selectedAspectRatio (saveData st) = selectedAspectRatio st"
  "promptInput (saveData st) = promptInput st"
  "next_addr (saveData st) = next_addr st"
  by (simp_all add: saveData_def setItem_def Let_def)

lemma saveData_effects:
  "effects (saveData st) = effects st @
     [SetItem (str ''userHistory'') (JSON_stringify (wallpapers_of (history st))),
      SetItem (str ''demoHistory'') (JSON_stringify (wallpapers_of (demoHistory st))),
      SetItem (str ''allGenerations'') (JSON_stringify (wallpapers_of (allGenerations st)))]"
  by (simp add: saveData_def setItem_def Let_def)

lemma request_lists [simp]:
  "history (generateWallpaper_request p r st) = history st"
  "demoHistory (generateWallpaper_request p r st) = demoHistory st"
  "allGenerations (generateWallpaper_request p r st) = allGenerations st"
  "demoPrompts (generateWallpaper_request p r st) = demoPrompts st"
  "selectedAspectRatio (generateWallpaper_request p r st) = selectedAspectRatio st"
  "promptInput (generateWallpaper_request p r st) = promptInput st"
  "localStorage (generateWallpaper_request p r st) = localStorage st"
  "next_addr (generateWallpaper_request p r st) = next_addr st"
  by (simp_all add: generateWallpaper_request_def)

lemma result_Some [simp]:
  "generateWallpaper_result (Some b) = Some (str ''data:image/jpeg;base64,'' @ b)"
  "generateWallpaper_result None = None"
  by (simp_all add: generateWallpaper_result_def)

lemma data_url_nonempty [simp]: "str ''data:image/jpeg;base64,'' \<noteq> []"
  by (simp add: str_def)

subsection \<open>Submitting a prompt\<close>

lemma resume_failure [simp]: "handleFormSubmit_resume p None n1 n2 st = st"
  by (simp add: handleFormSubmit_resume_def)

lemma resume_success:
  "history (handleFormSubmit_resume p (Some b) n1 n2 st) = history st @
     [(next_addr st, \<lparr>id_field = toString n1, prompt = p, imageUrl = str ''data:image/jpeg;base64,'' @ b,
        aspectRatio = selectedAspectRatio st, timestamp = n2, source = User\<rparr>)]"
  "allGenerations (handleFormSubmit_resume p (Some b) n1 n2 st) = allGenerations st @
     [(next_addr st, \<lparr>id_field = toString n1, prompt = p, imageUrl = str ''data:image/jpeg;base64,'' @ b,
        aspectRatio = selectedAspectRatio st, timestamp = n2, source = User\<rparr>)]"
  "demoHistory (handleFormSubmit_resume p (Some b) n1 n2 st) = demoHistory st"
  "next_addr (handleFormSubmit_resume p (Some b) n1 n2 st) = Suc (next_addr st)"
  "selectedAspectRatio (handleFormSubmit_resume p (Some b) n1 n2 st) = selectedAspectRatio st"
  by (simp_all add: handleFormSubmit_resume_def Let_def)

text \<open>
  What a submit appends. Let the prompt be non-empty after trimming. A submit that nothing
  interrupts appends, when the request gives an image, one and the same new entity to
  \<open>history\<close> and to \<open>allGenerations\<close>, with source \<open>user\<close> and the trimmed prompt, and
  leaves \<open>demoHistory\<close> alone; when the request fails, it leaves the three lists and the
  store as they are and writes nothing. When other handlers run while the request is
  pending, the continuation still appends one entity or none, with the trimmed prompt
  the handler waited with; the ratio of the entity is the one selected in the state in
  which the request settles, not the one the request was sent with.
\<close>

lemma submit_appends_one_or_none:
  assumes "trim (promptInput st) \<noteq> []"
  shows "(\<exists>w. history (handleFormSubmit (Some b) n1 n2 st) = history st @ [w]
           \<and> allGenerations (handleFormSubmit (Some b) n1 n2 st) = allGenerations st @ [w]
           \<and> demoHistory (handleFormSubmit (Some b) n1 n2 st) = demoHistory st
           \<and> source (snd w) = User \<and> prompt (snd w) = trim (promptInput st)
           \<and> aspectRatio (snd w) = selectedAspectRatio st)
     \<and> (history (handleFormSubmit None n1 n2 st) = history st
           \<and> allGenerations (handleFormSubmit None n1 n2 st) = allGenerations st
           \<and> demoHistory (handleFormSubmit None n1 n2 st) = demoHistory st
           \<and> localStorage (handleFormSubmit None n1 n2 st) = localStorage st
           \<and> writes_since st (handleFormSubmit None n1 n2 st) = [])
     \<and> (\<exists>st1. handleFormSubmit_start st = Awaiting (trim (promptInput st)) st1
           \<and> (\<forall>b n1 n2 st2. \<exists>w.
                 history (handleFormSubmit_resume (trim (promptInput st)) (Some b) n1 n2 st2)
                   = history st2 @ [w]
               \<and> allGenerations (handleFormSubmit_resume (trim (promptInput st)) (Some b) n1 n2 st2)
                   = allGenerations st2 @ [w]
               \<and> demoHistory (handleFormSubmit_resume (trim (promptInput st)) (Some b) n1 n2 st2)
                   = demoHistory st2
               \<and> source (snd w) = User \<and> prompt (snd w) = trim (promptInput st)
               \<and> aspectRatio (snd w) = selectedAspectRatio st2)
           \<and> (\<forall>n1 n2 st2. handleFormSubmit_resume (trim (promptInput st)) None n1 n2 st2 = st2))"
  using assms
  by (simp add: handleFormSubmit_def handleFormSubmit_start_def resume_success Let_def writes_since_def
      generateWallpaper_request_def)

lemma resume_requests:
  "filter is_request (effects (handleFormSubmit_resume p r n1 n2 st)) = filter is_request (effects st)"
  by (cases r) (simp_all add: handleFormSubmit_resume_def Let_def saveData_effects)

text \<open>
  Claim C5 fails on the code. The entity does not carry the aspect ratio the submit was
  made with: the handler reads \<open>selectedAspectRatio\<close> for the request, and reads it again
  for the entity when the request has settled. The prompt is entered with \<open>1:1\<close>
  selected and submitted, and \<open>16:9\<close> is chosen while the request is pending. The one
  request sent asks for \<open>1:1\<close>; the one entity appended to \<open>history\<close> and to
  \<open>allGenerations\<close> has the image of that request and the ratio \<open>16:9\<close>.
\<close>

theorem submit_records_ratio_read_after_await:
  "filter is_request (effects (run example_ratio_change (initial_state Map.empty)))
     = [GenerateImages
          (str ''Cute anime girl with cherry blossoms'' @ str '', anime style, high resolution, wallpaper'')
          R1_1]
   \<and> map snd (history (run example_ratio_change (initial_state Map.empty)))
     = [\<lparr>id_field = toString 1000, prompt = str ''Cute anime girl with cherry blossoms'',
         imageUrl = str ''data:image/jpeg;base64,'' @ str ''QQ=='', aspectRatio = R16_9,
         timestamp = 1001, source = User\<rparr>]
   \<and> allGenerations (run example_ratio_change (initial_state Map.empty))
     = history (run example_ratio_change (initial_state Map.empty))"
proof -
  have t: "trim (str ''Cute anime girl with cherry blossoms'') = str ''Cute anime girl with cherry blossoms''"
    by (simp add: trim_def is_white_space_def str_def)
  have n: "str ''Cute anime girl with cherry blossoms'' \<noteq> []"
    by (simp add: str_def)
  have r: "filter is_request (effects (run example_ratio_change (initial_state Map.empty)))
     = [GenerateImages
          (str ''Cute anime girl with cherry blossoms'' @ str '', anime style, high resolution, wallpaper'')
          R1_1]"
    by (simp add: run_def example_ratio_change_def resume_requests handleFormSubmit_start_def Let_def t n
        handleAspectRatioChange_def generateWallpaper_request_def initial_state_def)
  have h: "map snd (history (run example_ratio_change (initial_state Map.empty)))
     = [\<lparr>id_field = toString 1000, prompt = str ''Cute anime girl with cherry blossoms'',
         imageUrl = str ''data:image/jpeg;base64,'' @ str ''QQ=='', aspectRatio = R16_9,
         timestamp = 1001, source = User\<rparr>]"
    by (simp add: run_def example_ratio_change_def resume_success handleFormSubmit_start_def Let_def t n
        handleAspectRatioChange_def initial_state_def)
  have a: "allGenerations (run example_ratio_change (initial_state Map.empty))
     = history (run example_ratio_change (initial_state Map.empty))"
    by (simp add: run_def example_ratio_change_def resume_success handleFormSubmit_start_def Let_def t n
        handleAspectRatioChange_def initial_state_def)
  from r h a show ?thesis by (intro conjI)
qed

text \<open>
  Claim C6. When the prompt is empty after trimming, the handler returns before it sends
  anything: it has no continuation, and the state after the call is the state before it,
  with the same lists, the same selected ratio, the same store and the same trace of
  requests and writes.
\<close>

theorem empty_prompt_is_noop:
  assumes "trim (promptInput st) = []"
  shows "handleFormSubmit_start st = Returned st
    \<and> handleFormSubmit r now_id now_ts st = st
    \<and> perform SubmitStart st = st"
  using assms by (simp add: handleFormSubmit_start_def handleFormSubmit_def)

theorem empty_prompt_is_noop_witness:
  "trim (promptInput example_blank_state) = []
   \<and> handleFormSubmit_start example_blank_state = Returned example_blank_state
   \<and> handleFormSubmit (Some (str ''QQ=='')) 1000 1000 example_blank_state = example_blank_state
   \<and> perform SubmitStart example_blank_state = example_blank_state"
proof -
  have h: "trim (promptInput example_blank_state) = []"
    by (simp add: example_blank_state_def trim_def is_white_space_def)
  from h empty_prompt_is_noop [OF h] show ?thesis by (rule conjI)
qed

subsection \<open>The demo batch\<close>

lemma fold_push_demo:
  "demoHistory (fold push_demo ws st) = demoHistory st @ enumerate (next_addr st) ws"
  "allGenerations (fold push_demo ws st) = allGenerations st @ enumerate (next_addr st) ws"
  "history (fold push_demo ws st) = history st"
  "next_addr (fold push_demo ws st) = next_addr st + length ws"
  "effects (fold push_demo ws st) = effects st"
  "localStorage (fold push_demo ws st) = localStorage st"
  "selectedAspectRatio (fold push_demo ws st) = selectedAspectRatio st"
  by (induction ws arbitrary: st; simp add: push_demo_def Let_def)+

lemma resume_Some:
  assumes "generateLiveDemos_resume prompts evs st = Some st'"
  shows "demoHistory st' = demoHistory st @ enumerate (next_addr st) (batch_results prompts evs)"
    and "allGenerations st' = allGenerations st @ enumerate (next_addr st) (batch_results prompts evs)"
    and "history st' = history st"
    and "next_addr st' = next_addr st + length (batch_results prompts evs)"
    and "selectedAspectRatio st' = selectedAspectRatio st"
  using assms
  by (auto simp: generateLiveDemos_resume_def batch_results_def Let_def fold_push_demo
      split: option.splits if_splits)

lemma then_callback_Some:
  "then_callback p i u n1 n2 = Some w \<Longrightarrow> aspectRatio w = R9_16 \<and> source w = Demo \<and> prompt w = p"
  by (auto simp: then_callback_def demoAspectRatio_def split: option.splits if_splits)

lemma those_Some_iff: "those xs = Some ys \<longleftrightarrow> xs = map Some ys"
  by (induction xs arbitrary: ys) (auto split: option.splits)

lemma filter_Boolean_set: "w \<in> set (filter_Boolean rs) \<longleftrightarrow> Some w \<in> set rs"
  by (induction rs rule: filter_Boolean.induct) auto

lemma batch_results_demo:
  assumes "w \<in> set (batch_results prompts evs)"
  shows "aspectRatio w = R9_16 \<and> source w = Demo"
proof (cases "Promise_all prompts evs")
  case None
  with assms show ?thesis by (simp add: batch_results_def)
next
  case (Some rs)
  with assms have "Some w \<in> set rs" by (simp add: batch_results_def filter_Boolean_set)
  then have "Some (Some w) \<in> set (map Some rs)" by simp
  also have "map Some rs = map (\<lambda>(i, p).
                   map_option
                     (\<lambda>e. then_callback p i (generateWallpaper_result (response e))
                            (clock_id e) (clock_ts e))
                     (settlement_of evs i))
                (enumerate 0 prompts)"
    using Some by (simp add: Promise_all_def those_Some_iff)
  finally obtain i p e where
    "then_callback p i (generateWallpaper_result (response e)) (clock_id e) (clock_ts e) = Some w"
    by (auto simp: map_option_case split: option.splits)
  then show ?thesis by (auto dest: then_callback_Some)
qed

lemma enumerate_batch_results:
  assumes "w \<in> set (enumerate n (batch_results prompts evs))"
  shows "aspectRatio (snd w) = R9_16 \<and> source (snd w) = Demo"
proof -
  from assms have "snd w \<in> snd ` set (enumerate n (batch_results prompts evs))" by (rule imageI)
  then have "snd w \<in> set (batch_results prompts evs)"
    by (simp only: set_map [symmetric] map_snd_enumerate)
  then show ?thesis by (rule batch_results_demo)
qed

lemma start_effects:
  "effects (generateLiveDemos_start prompts st) = effects st @
     map (\<lambda>p. GenerateImages (p @ str '', anime style, high resolution, wallpaper'') R9_16) prompts"
  unfolding generateLiveDemos_start_def
  by (induction prompts arbitrary: st) (simp_all add: generateWallpaper_request_def demoAspectRatio_def)

text \<open>
  Claim C10. Whatever ratio is selected, every request of the batch is sent with the
  ratio 9:16, and every entity the batch appends to \<open>demoHistory\<close> and \<open>allGenerations\<close>
  has the aspect ratio 9:16.
\<close>

theorem demo_ratio_is_fixed:
  assumes "generateLiveDemos_resume prompts evs st = Some st'"
  shows "(\<exists>new. demoHistory st' = demoHistory st @ new \<and> allGenerations st' = allGenerations st @ new
           \<and> (\<forall>w \<in> set new. aspectRatio (snd w) = R9_16))
   \<and> effects (generateLiveDemos_start prompts st0) = effects st0 @
        map (\<lambda>p. GenerateImages (p @ str '', anime style, high resolution, wallpaper'') R9_16) prompts"
proof -
  have "\<forall>w \<in> set (enumerate (next_addr st) (batch_results prompts evs)). aspectRatio (snd w) = R9_16"
    by (simp add: enumerate_batch_results)
  with resume_Some(1,2) [OF assms] start_effects show ?thesis by blast
qed

subsection \<open>Which results a batch commits, and in which order\<close>

lemma settlement_of_request:
  assumes "distinct (map request evs)" "e \<in> set evs"
  shows "settlement_of evs (request e) = Some e"
  using assms unfolding settlement_of_def
  by (induction evs) (auto simp: image_iff)

lemma settlement_of_Some:
  assumes "settles_once n evs" "i < n"
  shows "\<exists>e. settlement_of evs i = Some e \<and> e \<in> set evs \<and> request e = i"
proof -
  from assms have "i \<in> request ` set evs" by (auto simp: settles_once_def)
  then obtain e where "e \<in> set evs" "request e = i" by auto
  with assms(1) settlement_of_request [of evs e] show ?thesis by (auto simp: settles_once_def)
qed

lemma enumerate_as_map: "enumerate 0 xs = map (\<lambda>i. (i, xs ! i)) [0..<length xs]"
  by (rule nth_equalityI) (simp_all add: nth_enumerate_eq)

lemma Promise_all_by_index:
  "Promise_all prompts evs =
     those (map (\<lambda>i. map_option
                        (\<lambda>e. then_callback (prompts ! i) i (generateWallpaper_result (response e))
                               (clock_id e) (clock_ts e))
                        (settlement_of evs i))
                [0..<length prompts])"
  by (simp add: Promise_all_def enumerate_as_map comp_def)

lemma those_map_Some:
  assumes "\<And>x. x \<in> set xs \<Longrightarrow> f x \<noteq> None"
  shows "those (map f xs) = Some (map (\<lambda>x. the (f x)) xs)"
  using assms by (induction xs) (auto split: option.splits)

lemma Promise_all_settled:
  assumes "settles_once (length prompts) evs"
  shows "Promise_all prompts evs = Some (map (result_at prompts evs) [0..<length prompts])"
proof -
  let ?f = "\<lambda>i. map_option
                   (\<lambda>e. then_callback (prompts ! i) i (generateWallpaper_result (response e))
                          (clock_id e) (clock_ts e))
                   (settlement_of evs i)"
  have "those (map ?f [0..<length prompts]) = Some (map (\<lambda>i. the (?f i)) [0..<length prompts])"
    by (rule those_map_Some) (use settlement_of_Some [OF assms] in fastforce)
  also have "map (\<lambda>i. the (?f i)) [0..<length prompts] = map (result_at prompts evs) [0..<length prompts]"
  proof (rule map_cong [OF refl])
    fix x assume "x \<in> set [0..<length prompts]"
    then obtain e where "settlement_of evs x = Some e"
      using settlement_of_Some [OF assms, of x] by auto
    then show "the (?f x) = result_at prompts evs x"
      by (simp add: result_at_def)
  qed
  finally show ?thesis by (simp add: Promise_all_by_index)
qed

lemma result_at_Some_iff:
  "(\<exists>w. result_at prompts evs i = Some w) \<longleftrightarrow> succeeded_at evs i"
  by (auto simp: result_at_def succeeded_at_def then_callback_def generateWallpaper_result_def str_def
      split: option.splits)

lemma result_at_prompt:
  "result_at prompts evs i = Some w \<Longrightarrow> prompt w = prompts ! i"
  by (auto simp: result_at_def dest: then_callback_Some split: option.splits)

lemma filter_Boolean_map:
  "filter_Boolean (map f xs) = map (\<lambda>x. the (f x)) (filter (\<lambda>x. f x \<noteq> None) xs)"
  by (induction xs) (auto split: option.splits)

lemma batch_results_settled:
  assumes "settles_once (length prompts) evs"
  shows "batch_results prompts evs =
     map (\<lambda>i. the (result_at prompts evs i)) (filter (succeeded_at evs) [0..<length prompts])"
  by (simp add: batch_results_def Promise_all_settled [OF assms] filter_Boolean_map result_at_Some_iff)

text \<open>
  Counting the successes by index or by settlement is the same, since the settlements are
  the indices in another order.
\<close>

lemma count_by_index:
  assumes "settles_once n evs"
  shows "length (filter (succeeded_at evs) [0..<n]) = length (filter (\<lambda>e. response e \<noteq> None) evs)"
proof -
  define g where "g i = the (settlement_of evs i)" for i
  have d: "distinct (map request evs)" and s: "set (map request evs) = set [0..<n]"
    using assms by (auto simp: settles_once_def)
  have m: "mset (map request evs) = mset [0..<n]"
    using d s by (metis distinct_upt set_eq_iff_mset_eq_distinct)
  have "map g (map request evs) = evs"
    using settlement_of_request [OF d] by (simp add: g_def map_idI)
  then have "mset evs = image_mset g (mset (map request evs))"
    by (metis mset_map)
  also have "\<dots> = mset (map g [0..<n])" by (metis m mset_map)
  finally have e: "mset evs = mset (map g [0..<n])" .
  have "length (filter (succeeded_at evs) [0..<n])
      = length (filter (\<lambda>e. response e \<noteq> None) (map g [0..<n]))"
  proof -
    have "filter (succeeded_at evs) [0..<n] = filter ((\<lambda>e. response e \<noteq> None) \<circ> g) [0..<n]"
    proof (rule filter_cong [OF refl])
      fix x assume "x \<in> set [0..<n]"
      then obtain e where "settlement_of evs x = Some e"
        using settlement_of_Some [OF assms, of x] by auto
      then show "succeeded_at evs x = ((\<lambda>e. response e \<noteq> None) \<circ> g) x"
        by (simp add: succeeded_at_def g_def)
    qed
    then show ?thesis by (simp add: filter_map)
  qed
  also have "\<dots> = size (filter_mset (\<lambda>e. response e \<noteq> None) (mset (map g [0..<n])))"
    by (simp only: mset_filter [symmetric] size_mset)
  also have "\<dots> = length (filter (\<lambda>e. response e \<noteq> None) evs)"
    by (simp only: e [symmetric] mset_filter [symmetric] size_mset)
  finally show ?thesis .
qed

lemma settlement_of_mset:
  assumes "mset evs' = mset evs" "distinct (map request evs)"
  shows "settlement_of evs' i = settlement_of evs i"
proof -
  have d': "distinct (map request evs')"
    using assms by (metis mset_eq_imp_distinct_iff mset_map)
  have s: "set evs' = set evs" using assms(1) by (rule mset_eq_setD)
  show ?thesis
  proof (cases "settlement_of evs i")
    case None
    then have "\<forall>e \<in> set evs. request e \<noteq> i" by (auto simp: settlement_of_def find_None_iff)
    with s have "settlement_of evs' i = None" by (auto simp: settlement_of_def find_None_iff)
    with None show ?thesis by simp
  next
    case (Some e)
    then have "e \<in> set evs" "request e = i"
      by (auto simp: settlement_of_def find_Some_iff)
    with s settlement_of_request [OF d', of e] Some show ?thesis by simp
  qed
qed

lemma Promise_all_mset:
  assumes "mset evs' = mset evs" "distinct (map request evs)"
  shows "Promise_all prompts evs' = Promise_all prompts evs"
  by (simp add: Promise_all_def settlement_of_mset [OF assms])

lemma example_settles_once: "settles_once (length example_prompts) example_settlements"
  by (auto simp: settles_once_def example_prompts_def example_settlements_def)

text \<open>
  Claim C7. When each of the \<open>N\<close> requests of a batch settles once and \<open>K\<close> of them
  succeed, the continuation of the batch runs, \<open>demoHistory\<close> and \<open>allGenerations\<close> are
  longer by \<open>K\<close> after it, and it writes to the store if and only if \<open>K > 0\<close>.
\<close>

theorem demo_batch_grows_by_successes:
  assumes "settles_once (length prompts) evs"
  shows "\<exists>st'. generateLiveDemos_resume prompts evs st = Some st'
     \<and> length (demoHistory st') = length (demoHistory st) + length (filter (\<lambda>e. response e \<noteq> None) evs)
     \<and> length (allGenerations st') = length (allGenerations st) + length (filter (\<lambda>e. response e \<noteq> None) evs)
     \<and> (writes_since st st' \<noteq> [] \<longleftrightarrow> 0 < length (filter (\<lambda>e. response e \<noteq> None) evs))"
proof -
  let ?K = "length (filter (\<lambda>e. response e \<noteq> None) evs)"
  have P: "Promise_all prompts evs = Some (map (result_at prompts evs) [0..<length prompts])"
    by (rule Promise_all_settled [OF assms])
  then obtain st' where r: "generateLiveDemos_resume prompts evs st = Some st'"
    by (simp add: generateLiveDemos_resume_def Let_def)
  have K: "length (batch_results prompts evs) = ?K"
    by (simp add: batch_results_settled [OF assms] count_by_index [OF assms])
  have w: "writes_since st st' \<noteq> [] \<longleftrightarrow> 0 < ?K"
  proof (cases "batch_results prompts evs = []")
    case True
    with r P have "st' = st"
      by (simp add: generateLiveDemos_resume_def Let_def batch_results_def)
    with True K show ?thesis by (simp add: writes_since_def)
  next
    case False
    with r P have "st' = saveData (fold push_demo (batch_results prompts evs) st)"
      by (simp add: generateLiveDemos_resume_def Let_def batch_results_def)
    then have "writes_since st st' \<noteq> []"
      by (simp add: writes_since_def saveData_effects fold_push_demo)
    with False K show ?thesis by auto
  qed
  from resume_Some(1,2) [OF r] K w r show ?thesis by simp
qed

theorem demo_batch_grows_by_successes_witness:
  "settles_once (length example_prompts) example_settlements
   \<and> length (filter (\<lambda>e. response e \<noteq> None) example_settlements) = 3
   \<and> (\<exists>st'. generateLiveDemos_resume example_prompts example_settlements (initial_state Map.empty) = Some st'
     \<and> length (demoHistory st') = length (demoHistory (initial_state Map.empty))
          + length (filter (\<lambda>e. response e \<noteq> None) example_settlements)
     \<and> length (allGenerations st') = length (allGenerations (initial_state Map.empty))
          + length (filter (\<lambda>e. response e \<noteq> None) example_settlements)
     \<and> (writes_since (initial_state Map.empty) st' \<noteq> []
          \<longleftrightarrow> 0 < length (filter (\<lambda>e. response e \<noteq> None) example_settlements)))"
proof -
  have k: "length (filter (\<lambda>e. response e \<noteq> None) example_settlements) = 3"
    by (simp add: example_settlements_def)
  from example_settles_once k
    demo_batch_grows_by_successes [OF example_settles_once, of "initial_state Map.empty"]
  show ?thesis by blast
qed

lemma example_batch_runs:
  "\<exists>st'. generateLiveDemos_resume example_prompts example_settlements (initial_state Map.empty) = Some st'"
  by (simp add: generateLiveDemos_resume_def Promise_all_settled [OF example_settles_once] Let_def)

theorem demo_ratio_is_fixed_witness:
  "\<exists>st'. generateLiveDemos_resume example_prompts example_settlements (initial_state Map.empty) = Some st'
     \<and> (\<exists>new. demoHistory st' = demoHistory (initial_state Map.empty) @ new
           \<and> allGenerations st' = allGenerations (initial_state Map.empty) @ new
           \<and> (\<forall>w \<in> set new. aspectRatio (snd w) = R9_16))
     \<and> effects (generateLiveDemos_start example_prompts example_submit_state)
        = effects example_submit_state @
          map (\<lambda>p. GenerateImages (p @ str '', anime style, high resolution, wallpaper'') R9_16)
            example_prompts"
proof -
  from example_batch_runs obtain st' where
    r: "generateLiveDemos_resume example_prompts example_settlements (initial_state Map.empty) = Some st'"
    by blast
  from r demo_ratio_is_fixed [OF r, of example_submit_state] show ?thesis by blast
qed

text \<open>
  Claim C4, as the code has it. \<open>Promise.all\<close> gives the results at the indices of the
  prompts, so the batch appends its successful results in the order of the prompts,
  whatever the order in which the requests settled: the prompts of the appended entities
  are the prompts at the successful indices, in increasing order of the index, and two
  lists of settlements that differ only in their order leave the same state.
\<close>

theorem demo_batch_commits_in_prompt_order:
  assumes "settles_once (length prompts) evs"
  shows "(\<exists>st' new. generateLiveDemos_resume prompts evs st = Some st'
     \<and> demoHistory st' = demoHistory st @ new \<and> allGenerations st' = allGenerations st @ new
     \<and> map (prompt \<circ> snd) new = map ((!) prompts) (filter (succeeded_at evs) [0..<length prompts]))
   \<and> (\<forall>evs'. mset evs' = mset evs \<longrightarrow>
           generateLiveDemos_resume prompts evs' st = generateLiveDemos_resume prompts evs st)"
proof -
  have P: "Promise_all prompts evs = Some (map (result_at prompts evs) [0..<length prompts])"
    by (rule Promise_all_settled [OF assms])
  then obtain st' where r: "generateLiveDemos_resume prompts evs st = Some st'"
    by (simp add: generateLiveDemos_resume_def Let_def)
  have "map prompt (batch_results prompts evs)
      = map ((!) prompts) (filter (succeeded_at evs) [0..<length prompts])"
    unfolding batch_results_settled [OF assms] map_map
  proof (rule map_cong [OF refl])
    fix i assume "i \<in> set (filter (succeeded_at evs) [0..<length prompts])"
    then have "succeeded_at evs i" by simp
    then obtain w where "result_at prompts evs i = Some w"
      using result_at_Some_iff [of prompts evs i] by blast
    then show "(prompt \<circ> (\<lambda>i. the (result_at prompts evs i))) i = prompts ! i"
      by (simp add: result_at_prompt)
  qed
  then have "map (prompt \<circ> snd) (enumerate (next_addr st) (batch_results prompts evs))
      = map ((!) prompts) (filter (succeeded_at evs) [0..<length prompts])"
    by (simp add: comp_def flip: map_map [of prompt snd, unfolded comp_def])
  with resume_Some(1,2) [OF r] r
  have first: "\<exists>st' new. generateLiveDemos_resume prompts evs st = Some st'
     \<and> demoHistory st' = demoHistory st @ new \<and> allGenerations st' = allGenerations st @ new
     \<and> map (prompt \<circ> snd) new = map ((!) prompts) (filter (succeeded_at evs) [0..<length prompts])"
    by blast
  have "generateLiveDemos_resume prompts evs' st = generateLiveDemos_resume prompts evs st"
    if "mset evs' = mset evs" for evs'
  proof -
    from assms have "distinct (map request evs)" by (simp add: settles_once_def)
    from Promise_all_mset [OF that this] show ?thesis
      by (simp only: generateLiveDemos_resume_def)
  qed
  with first show ?thesis by blast
qed

theorem demo_batch_commits_in_prompt_order_witness:
  "settles_once (length example_prompts) example_settlements
   \<and> mset (rev example_settlements) = mset example_settlements
   \<and> map ((!) example_prompts) (filter (succeeded_at example_settlements) [0..<length example_prompts])
       = [str ''A'', str ''C'', str ''D'']
   \<and> (\<exists>st' new. generateLiveDemos_resume example_prompts example_settlements (initial_state Map.empty) = Some st'
       \<and> demoHistory st' = demoHistory (initial_state Map.empty) @ new
       \<and> allGenerations st' = allGenerations (initial_state Map.empty) @ new
       \<and> map (prompt \<circ> snd) new
           = map ((!) example_prompts) (filter (succeeded_at example_settlements) [0..<length example_prompts]))
   \<and> generateLiveDemos_resume example_prompts (rev example_settlements) (initial_state Map.empty)
       = generateLiveDemos_resume example_prompts example_settlements (initial_state Map.empty)"
proof -
  have m: "mset (rev example_settlements) = mset example_settlements" by simp
  have p: "map ((!) example_prompts) (filter (succeeded_at example_settlements) [0..<length example_prompts])
       = [str ''A'', str ''C'', str ''D'']"
    by (simp add: example_prompts_def example_settlements_def succeeded_at_def settlement_of_def
        upt_rec [of 0] upt_rec [of "Suc 0"] upt_rec [of 2] upt_rec [of 3] upt_rec [of 4])
  from example_settles_once m p
    demo_batch_commits_in_prompt_order [OF example_settles_once, of "initial_state Map.empty"]
  show ?thesis by blast
qed

text \<open>
  The claim C4 as the specification states it fails. With two prompts \<open>A\<close> and \<open>B\<close> whose
  requests both succeed, \<open>B\<close>'s before \<open>A\<close>'s, the batch appends \<open>A\<close> and then \<open>B\<close>,
  which is not the order of settlement.
\<close>

theorem demo_batch_settlement_order_counterexample:
  "map_option (map (prompt \<circ> snd) \<circ> demoHistory)
     (generateLiveDemos_resume [str ''A'', str ''B'']
        [Settled 1 (Some (str ''Qg=='')) 10 10, Settled 0 (Some (str ''QQ=='')) 20 20]
        (initial_state Map.empty))
     = Some [str ''A'', str ''B'']
   \<and> settlement_order [str ''A'', str ''B'']
        [Settled 1 (Some (str ''Qg=='')) 10 10, Settled 0 (Some (str ''QQ=='')) 20 20]
     = [str ''B'', str ''A'']
   \<and> [str ''A'', str ''B''] \<noteq> [str ''B'', str ''A'']"
proof -
  have "str ''A'' \<noteq> str ''B''" by (simp add: str_def)
  then show ?thesis
    by (simp add: generateLiveDemos_resume_def Promise_all_def settlement_of_def then_callback_def
        push_demo_def initial_state_def settlement_order_def Let_def)
qed

subsection \<open>The three lists along a run\<close>

lemma consistent_initial: "consistent (initial_state store)"
  by (simp add: consistent_def initial_state_def)

lemma start_unchanged:
  "handleFormSubmit_start st = Awaiting p st' \<Longrightarrow>
     history st' = history st \<and> demoHistory st' = demoHistory st
     \<and> allGenerations st' = allGenerations st \<and> next_addr st' = next_addr st"
  "handleFormSubmit_start st = Returned st' \<Longrightarrow> st' = st"
  by (auto simp: handleFormSubmit_start_def Let_def split: if_splits)

lemma demo_start_unchanged:
  "history (generateLiveDemos_start ps st) = history st"
  "demoHistory (generateLiveDemos_start ps st) = demoHistory st"
  "allGenerations (generateLiveDemos_start ps st) = allGenerations st"
  "next_addr (generateLiveDemos_start ps st) = next_addr st"
  unfolding generateLiveDemos_start_def
  by (induction ps arbitrary: st; simp)+

lemma consistent_cong:
  assumes "consistent st" "history st' = history st" "demoHistory st' = demoHistory st"
    "allGenerations st' = allGenerations st" "next_addr st' = next_addr st"
  shows "consistent st'"
  using assms by (simp add: consistent_def)

lemma consistent_submit:
  assumes "consistent st"
  shows "consistent (handleFormSubmit_resume p r n1 n2 st)"
proof (cases r)
  case None
  with assms show ?thesis by simp
next
  case (Some b)
  with assms show ?thesis
    by (auto simp: consistent_def resume_success less_Suc_eq)
qed

lemma consistent_demo:
  assumes "consistent st" "generateLiveDemos_resume prompts evs st = Some st'"
  shows "consistent st'"
proof -
  let ?new = "enumerate (next_addr st) (batch_results prompts evs)"
  have src: "\<forall>w \<in> set ?new. source (snd w) = Demo"
    by (simp add: enumerate_batch_results)
  have f1: "filter (\<lambda>w. source (snd w) = User) ?new = []"
    using src by (simp add: filter_empty_conv)
  have f2: "filter (\<lambda>w. source (snd w) = Demo) ?new = ?new"
    using src by (simp add: filter_id_conv)
  have fresh: "\<forall>w \<in> set ?new. next_addr st \<le> fst w
      \<and> fst w < next_addr st + length (batch_results prompts evs)"
    by (auto simp: in_set_enumerate_eq)
  have d: "distinct (map fst ?new)" by (simp add: map_fst_enumerate)
  from assms(1) resume_Some [OF assms(2)] f1 f2 fresh d show ?thesis
    by (fastforce simp: consistent_def)
qed

lemma consistent_perform:
  assumes "consistent st"
  shows "consistent (perform a st)"
proof (cases a)
  case (TypePrompt s)
  with assms show ?thesis by (simp add: consistent_def)
next
  case (ChooseRatio r)
  with assms show ?thesis
    by (cases r) (simp_all add: consistent_def handleAspectRatioChange_def)
next
  case SubmitStart
  with assms show ?thesis
    by (auto split: suspended.splits dest: start_unchanged intro: consistent_cong)
next
  case (SubmitSettles p r n1 n2)
  with assms show ?thesis by (simp add: consistent_submit)
next
  case (DemoStart ps)
  with assms show ?thesis
    by (auto intro: consistent_cong simp: demo_start_unchanged)
next
  case (DemoSettles ps evs)
  with assms show ?thesis
    by (auto split: option.splits intro: consistent_demo)
qed

lemma consistent_run: "consistent st \<Longrightarrow> consistent (run acts st)"
  unfolding run_def by (induction acts arbitrary: st) (simp_all add: consistent_perform)

lemma source_cases: "source w \<noteq> User \<longleftrightarrow> source w = Demo"
  by (cases "source w") simp_all

lemma consistent_merge:
  assumes "consistent st"
  shows "length (allGenerations st) = length (history st) + length (demoHistory st)"
    and "distinct (allGenerations st)"
    and "set (allGenerations st) = set (history st) \<union> set (demoHistory st)"
    and "filter (\<lambda>w. w \<in> set (history st)) (allGenerations st) = history st"
    and "filter (\<lambda>w. w \<in> set (demoHistory st)) (allGenerations st) = demoHistory st"
proof -
  let ?U = "\<lambda>w::obj. source (snd w) = User" and ?D = "\<lambda>w::obj. source (snd w) = Demo"
  have h: "history st = filter ?U (allGenerations st)"
    and d: "demoHistory st = filter ?D (allGenerations st)"
    using assms by (simp_all add: consistent_def)
  have nd: "(\<lambda>w. \<not> ?U w) = ?D" by (auto simp: source_cases)
  have "length (allGenerations st)
      = length (filter ?U (allGenerations st)) + length (filter (\<lambda>w. \<not> ?U w) (allGenerations st))"
    by (simp add: sum_length_filter_compl)
  then show "length (allGenerations st) = length (history st) + length (demoHistory st)"
    by (simp only: nd h [symmetric] d [symmetric])
  show "distinct (allGenerations st)"
    using assms by (simp add: consistent_def distinct_map)
  show "set (allGenerations st) = set (history st) \<union> set (demoHistory st)"
    unfolding h d using source_cases by auto
  have "filter (\<lambda>w. w \<in> set (history st)) (allGenerations st) = filter ?U (allGenerations st)"
    unfolding h by (rule filter_cong) auto
  then show "filter (\<lambda>w. w \<in> set (history st)) (allGenerations st) = history st"
    by (simp only: h [symmetric])
  have "filter (\<lambda>w. w \<in> set (demoHistory st)) (allGenerations st) = filter ?D (allGenerations st)"
    unfolding d by (rule filter_cong) auto
  then show "filter (\<lambda>w. w \<in> set (demoHistory st)) (allGenerations st) = demoHistory st"
    by (simp only: d [symmetric])
qed

text \<open>
  Claim C2. After any run from the initial state (the pieces of submits and demo batches
  in any order, with typing and ratio changes in between), \<open>allGenerations\<close> is as long as
  \<open>history\<close> and \<open>demoHistory\<close> together, no object occurs twice in it, its objects are
  those of \<open>history\<close> and of \<open>demoHistory\<close>, and the objects of \<open>history\<close> occur in it in
  the order they have in \<open>history\<close>, and likewise for \<open>demoHistory\<close>.
\<close>

theorem all_generations_merges_both_lists:
  "length (allGenerations (run acts (initial_state store)))
     = length (history (run acts (initial_state store)))
       + length (demoHistory (run acts (initial_state store)))
   \<and> distinct (allGenerations (run acts (initial_state store)))
   \<and> set (allGenerations (run acts (initial_state store)))
       = set (history (run acts (initial_state store)))
         \<union> set (demoHistory (run acts (initial_state store)))
   \<and> filter (\<lambda>w. w \<in> set (history (run acts (initial_state store))))
        (allGenerations (run acts (initial_state store)))
       = history (run acts (initial_state store))
   \<and> filter (\<lambda>w. w \<in> set (demoHistory (run acts (initial_state store))))
        (allGenerations (run acts (initial_state store)))
       = demoHistory (run acts (initial_state store))"
  using consistent_merge [OF consistent_run [OF consistent_initial, of acts store]] by simp

text \<open>
  Claim C3 fails on the code. The id of a user entity is the value of the clock alone.
  Two submits are pending at once (the prompt \<open>A\<close> is entered and submitted, then \<open>B\<close>),
  both requests succeed, and both continuations read the clock at 1000: the two entities
  of \<open>history\<close> have the same \<open>id\<close>.
\<close>

theorem user_ids_collide:
  "map (id_field \<circ> snd)
     (history (run [TypePrompt (str ''A''), SubmitStart, TypePrompt (str ''B''), SubmitStart,
                    SubmitSettles (str ''A'') (Some (str ''QQ=='')) 1000 1000,
                    SubmitSettles (str ''B'') (Some (str ''Qg=='')) 1000 1001]
                (initial_state Map.empty)))
     = [toString 1000, toString 1000]
   \<and> \<not> distinct (map (id_field \<circ> snd)
     (history (run [TypePrompt (str ''A''), SubmitStart, TypePrompt (str ''B''), SubmitStart,
                    SubmitSettles (str ''A'') (Some (str ''QQ=='')) 1000 1000,
                    SubmitSettles (str ''B'') (Some (str ''Qg=='')) 1000 1001]
                (initial_state Map.empty))))"
proof -
  have t: "trim (str ''A'') = str ''A''" "trim (str ''B'') = str ''B''"
    by (simp_all add: trim_def is_white_space_def str_def)
  have n: "str ''A'' \<noteq> []" "str ''B'' \<noteq> []"
    by (simp_all add: str_def)
  show ?thesis
    by (simp add: run_def resume_success initial_state_def handleFormSubmit_start_def Let_def t n)
qed

subsection \<open>Rotating a demo prompt\<close>

lemma pool_distinct: "distinct PROMPT_POOL"
  by (simp add: PROMPT_POOL_def str_def)

lemma pool_card: "card (set PROMPT_POOL) = 12"
  using distinct_card [OF pool_distinct] by (simp add: PROMPT_POOL_def)

lemma draw_terminates:
  "pool ! rand (k + d) \<notin> set prompts \<Longrightarrow> \<exists>y. draw_newPrompt pool rand prompts k = Some y"
proof (induction d arbitrary: k)
  case 0
  then show ?case by (subst draw_newPrompt.simps) (simp add: Let_def)
next
  case (Suc d)
  from Suc.prems have "pool ! rand (Suc k + d) \<notin> set prompts" by simp
  from Suc.IH [OF this] show ?case
    by (subst draw_newPrompt.simps) (auto simp: Let_def)
qed

lemma fresh_entry_exists:
  assumes "length prompts + 1 \<le> card (set pool)"
  shows "\<exists>i<length pool. pool ! i \<notin> set prompts"
proof -
  have "card (set prompts) \<le> length prompts" by (rule card_length)
  with assms have "card (set prompts) < card (set pool)" by simp
  then have "\<not> set pool \<subseteq> set prompts"
    by (metis List.finite_set card_mono not_less)
  then obtain x where "x \<in> set pool" "x \<notin> set prompts" by auto
  then show ?thesis by (auto simp: in_set_conv_nth)
qed

text \<open>
  Claim C8. The random numbers are a sequence of indices of the pool in which every index
  of the pool comes up at some draw, as in a sequence of independent uniform draws. When
  the pool has at least one more distinct entry than the rotating set has slots, the loop
  ends and the function returns, for a prompt of the set and for any other prompt
  (with or without duplicates in the set).
\<close>

theorem refreshDemoPrompt_terminates:
  assumes "length (demoPrompts st) + 1 \<le> card (set pool)"
    and "\<forall>i<length pool. \<exists>n. rand n = i"
  shows "\<exists>st'. refreshDemoPrompt_from pool rand usedPrompt st = Some st'"
proof -
  from fresh_entry_exists [OF assms(1)] obtain i where
    i: "i < length pool" "pool ! i \<notin> set (demoPrompts st)"
    by blast
  from assms(2) i(1) obtain n where "rand n = i" by blast
  with i(2) have "pool ! rand (0 + n) \<notin> set (demoPrompts st)" by simp
  from draw_terminates [of pool rand 0 n "demoPrompts st", OF this]
  show ?thesis
    by (auto simp: refreshDemoPrompt_from_def split: option.splits)
qed

lemma round_robin_reaches:
  "\<forall>i<length PROMPT_POOL. \<exists>n. round_robin n = i"
proof (intro allI impI)
  fix i assume "i < length PROMPT_POOL"
  then have "round_robin i = i" by (simp add: round_robin_def)
  then show "\<exists>n. round_robin n = i" ..
qed

theorem refreshDemoPrompt_terminates_witness:
  "length (demoPrompts example_rotating_state) + 1 \<le> card (set PROMPT_POOL)
   \<and> map round_robin [0..<length PROMPT_POOL] = [0..<length PROMPT_POOL]
   \<and> PROMPT_POOL ! 0 \<in> set (demoPrompts example_rotating_state)
   \<and> (\<exists>st'. refreshDemoPrompt round_robin (PROMPT_POOL ! 0) example_rotating_state = Some st')"
proof -
  have h: "length (demoPrompts example_rotating_state) + 1 \<le> card (set PROMPT_POOL)"
    by (simp add: example_rotating_state_def pool_card)
  have m: "PROMPT_POOL ! 0 \<in> set (demoPrompts example_rotating_state)"
    by (simp add: example_rotating_state_def PROMPT_POOL_def)
  from refreshDemoPrompt_terminates [OF h round_robin_reaches, of "PROMPT_POOL ! 0"]
  have "\<exists>st'. refreshDemoPrompt round_robin (PROMPT_POOL ! 0) example_rotating_state = Some st'"
    by (simp add: refreshDemoPrompt_def)
  moreover have "map round_robin [0..<length PROMPT_POOL] = [0..<length PROMPT_POOL]"
    by (rule map_idI) (simp add: round_robin_def)
  ultimately show ?thesis using h m by (intro conjI)
qed

section \<open>JSON.parse reads what JSON.stringify writes\<close>

lemma steps_append:
  "steps st (xs @ ys) = (case steps st xs of None \<Rightarrow> None | Some st' \<Rightarrow> steps st' ys)"
  by (induction xs arbitrary: st) (auto split: option.splits)

lemma unat_of_nat_16: "x < 65536 \<Longrightarrow> unat (of_nat x :: 16 word) = x"
  by (simp add: unat_of_nat)

lemma unat_hex_digit:
  assumes "n < 16"
  shows "unat (hex_digit n) = (if n < 10 then 48 + n else 87 + n)"
proof -
  from assms have "48 + n < 65536" "87 + n < 65536" by simp_all
  then show ?thesis
    by (simp only: hex_digit_def unat_of_nat_16 if_distrib [of unat])
qed

lemma hex_digit_le:
  assumes "n < 16"
  shows "w \<le> hex_digit n \<longleftrightarrow> unat w \<le> (if n < 10 then 48 + n else 87 + n)"
    and "hex_digit n \<le> w \<longleftrightarrow> (if n < 10 then 48 + n else 87 + n) \<le> unat w"
  by (simp_all only: word_le_nat_alt unat_hex_digit [OF assms])

lemma hex_val_hex_digit:
  assumes "n < 16"
  shows "hex_val (hex_digit n) = Some n"
  using assms by (simp add: hex_val_def hex_digit_le unat_hex_digit)

lemma nibbles:
  assumes "n < 65536"
  shows "((n div 4096 mod 16 * 16 + n div 256 mod 16) * 16 + n div 16 mod 16) * 16 + n mod 16
     = (n::nat)"
proof -
  define q1 q2 q3 r0 r1 r2
    where "q1 = n div 16" and "q2 = q1 div 16" and "q3 = q2 div 16"
      and "r0 = n mod 16" and "r1 = q1 mod 16" and "r2 = q2 mod 16"
  have e0: "n = q1 * 16 + r0" and e1: "q1 = q2 * 16 + r1" and e2: "q2 = q3 * 16 + r2"
    by (simp_all add: q1_def q2_def q3_def r0_def r1_def r2_def)
  have d2: "n div 256 = q2" and d3: "n div 4096 = q3"
    by (simp_all add: q1_def q2_def q3_def div_mult2_eq)
  have "q3 < 16"
    unfolding d3 [symmetric] using assms by (simp add: less_mult_imp_div_less)
  then have m: "q3 mod 16 = q3" by simp
  have "((q3 * 16 + r2) * 16 + r1) * 16 + r0 = n"
    by (subst e0, subst e1, subst e2) simp
  then show ?thesis
    by (simp only: d2 d3 m q1_def [symmetric] r0_def [symmetric] r1_def [symmetric] r2_def [symmetric])
qed

lemma unat_16: "unat (c :: 16 word) < 65536"
  using unsigned_less [of c, where 'a = nat] by simp

lemma steps_hex4:
  assumes "a < 16" "b < 16" "c < 16" "d < 16"
  shows "steps (Hex k acc 0 0, stk) [hex_digit a, hex_digit b, hex_digit c, hex_digit d]
     = Some (Str k (of_nat (((a * 16 + b) * 16 + c) * 16 + d) # acc), stk)"
  using assms by (simp add: hex_val_hex_digit del: of_nat_add of_nat_mult)

lemma steps_UnicodeEscape:
  "steps (Str k acc, stk) (UnicodeEscape c) = Some (Str k (c # acc), stk)"
proof -
  let ?n = "unat c"
  have "steps (Str k acc, stk) (UnicodeEscape c)
      = steps (Hex k acc 0 0, stk) [hex_digit (?n div 4096 mod 16), hex_digit (?n div 256 mod 16),
          hex_digit (?n div 16 mod 16), hex_digit (?n mod 16)]"
    by (simp add: UnicodeEscape_def Let_def)
  also have "\<dots> = Some (Str k (of_nat (((?n div 4096 mod 16 * 16 + ?n div 256 mod 16) * 16
        + ?n div 16 mod 16) * 16 + ?n mod 16) # acc), stk)"
    by (rule steps_hex4) simp_all
  also have "\<dots> = Some (Str k (c # acc), stk)"
    by (simp only: nibbles [OF unat_16]) simp
  finally show ?thesis .
qed

lemma surrogate_is_plain:
  assumes "is_leading_surrogate c \<or> is_trailing_surrogate c"
  shows "c \<noteq> 0x22" "c \<noteq> 0x5C" "\<not> c < 0x20"
  using assms unfolding is_leading_surrogate_def is_trailing_surrogate_def
  by unat_arith+

lemma steps_quote_unit:
  "steps (Str k acc, stk) (quote_unit c) = Some (Str k (c # acc), stk)"
  by (simp add: quote_unit_def unescape_def steps_UnicodeEscape)


lemma step_plain:
  assumes "c \<noteq> 0x22" "c \<noteq> 0x5C" "\<not> c < 0x20"
  shows "step (Str k acc, stk) c = Some (Str k (c # acc), stk)"
  using assms by simp

lemma steps_quote_units:
  "steps (Str k acc, stk) (quote_units s) = Some (Str k (rev s @ acc), stk)"
proof (induction s arbitrary: acc rule: quote_units.induct)
  case 1
  show ?case by simp
next
  case (2 c)
  show ?case by (simp add: steps_quote_unit)
next
  case (3 c d s)
  show ?case
  proof (cases "is_leading_surrogate c \<and> is_trailing_surrogate d")
    case True
    then have q: "quote_units (c # d # s) = c # d # quote_units s" by simp
    from True have "step (Str k acc, stk) c = Some (Str k (c # acc), stk)"
      and "step (Str k (c # acc), stk) d = Some (Str k (d # c # acc), stk)"
      by (simp_all only: step_plain surrogate_is_plain [of c] surrogate_is_plain [of d] simp_thms)
    with 3(1) [OF True, of "d # c # acc"] show ?thesis
      by (simp only: q steps.simps option.case rev.simps append.simps append_assoc)
  next
    case False
    then have q: "quote_units (c # d # s) = quote_unit c @ quote_units (d # s)" by auto
    from 3(2) [OF False, of "c # acc"] show ?thesis
      by (simp only: q steps_append steps_quote_unit option.case rev.simps append.simps append_assoc)
  qed
qed

lemma steps_Quote_value:
  "steps (Value, InMember ms k # r) (QuoteJSONString s @ rest)
     = steps (After, InObject ((k, JString s) # ms) # r) rest"
proof -
  have "steps (Value, InMember ms k # r) (QuoteJSONString s @ rest)
      = steps (Str False [], InMember ms k # r) (quote_units s @ 0x22 # rest)"
    by (simp add: QuoteJSONString_def is_json_ws_def start_value_def)
  also have "\<dots> = steps (Str False (rev s), InMember ms k # r) (0x22 # rest)"
    by (simp only: steps_append steps_quote_units option.case append_Nil2)
  also have "\<dots> = steps (After, InObject ((k, JString s) # ms) # r) rest"
    by (simp add: end_string_def completed_def)
  finally show ?thesis .
qed

lemma steps_Quote_name:
  assumes "m = FirstMember \<or> m = Member"
  shows "steps (m, InObject ms # r) (QuoteJSONString s @ rest) = steps (Colon, InMember ms s # r) rest"
proof -
  have "steps (m, InObject ms # r) (QuoteJSONString s @ rest)
      = steps (Str True [], InObject ms # r) (quote_units s @ 0x22 # rest)"
    using assms by (auto simp: QuoteJSONString_def is_json_ws_def)
  also have "\<dots> = steps (Str True (rev s), InObject ms # r) (0x22 # rest)"
    by (simp only: steps_append steps_quote_units option.case append_Nil2)
  also have "\<dots> = steps (Colon, InMember ms s # r) rest"
    by (simp add: end_string_def)
  finally show ?thesis .
qed


lemma unat_digit_char: "d < 10 \<Longrightarrow> unat (digit_char d) = 48 + d"
  by (simp only: digit_char_def unat_of_nat_16)

lemma digit_char_le:
  assumes "d < 10"
  shows "w \<le> digit_char d \<longleftrightarrow> unat w \<le> 48 + d"
    and "digit_char d \<le> w \<longleftrightarrow> 48 + d \<le> unat w"
  by (simp_all only: word_le_nat_alt unat_digit_char [OF assms])

lemma digit_char_eq:
  assumes "d < 10"
  shows "digit_char d = w \<longleftrightarrow> 48 + d = unat w"
  by (simp only: word_unat_eq_iff [of "digit_char d"] unat_digit_char [OF assms])

lemma digit_val_digit_char: "d < 10 \<Longrightarrow> digit_val (digit_char d) = Some d"
  by (simp add: digit_val_def digit_char_le unat_digit_char)

lemma first_digit:
  assumes "0 < d" "d < 10"
  shows "step (Value, stk) (digit_char d) = Some (NInt False d, stk)"
    and "step (NMinus, stk) (digit_char d) = Some (NInt True d, stk)"
  using assms
  by (simp_all add: is_json_ws_def start_value_def digit_char_eq digit_char_le unat_digit_char)

lemma next_digit:
  "d < 10 \<Longrightarrow> step (NInt neg m, stk) (digit_char d) = Some (NInt neg (m * 10 + d), stk)"
  by (simp add: digit_val_digit_char)

lemma steps_show_nat:
  assumes "0 < n"
  shows "steps (Value, stk) (show_nat n) = Some (NInt False n, stk)"
    and "steps (NMinus, stk) (show_nat n) = Some (NInt True n, stk)"
  using assms
proof (induction n rule: show_nat.induct)
  case (1 n)
  {
    case 1
    show ?case
    proof (cases "n < 10")
      case True
      with \<open>0 < n\<close> show ?thesis by (simp add: show_nat.simps [of n] first_digit del: step.simps)
    next
      case False
      then have "0 < n div 10" by simp
      with False "1.IH"(1) [of] have "steps (Value, stk) (show_nat (n div 10)) = Some (NInt False (n div 10), stk)"
        by simp
      with False show ?thesis
        by (simp add: show_nat.simps [of n] steps_append next_digit del: step.simps)
    qed
  next
    case 2
    show ?case
    proof (cases "n < 10")
      case True
      with \<open>0 < n\<close> show ?thesis by (simp add: show_nat.simps [of n] first_digit del: step.simps)
    next
      case False
      then have "0 < n div 10" by simp
      with False "1.IH"(2) have "steps (NMinus, stk) (show_nat (n div 10)) = Some (NInt True (n div 10), stk)"
        by simp
      with False show ?thesis
        by (simp add: show_nat.simps [of n] steps_append next_digit del: step.simps)
    qed
  }
qed


lemma show_nat_0: "show_nat 0 = [0x30]"
  by (simp add: show_nat.simps [of 0] digit_char_def)

lemma steps_toString_member:
  "steps (Value, InMember ms k # r) (toString t @ 0x2C # rest)
     = steps (Member, InObject ((k, JNumber t 0) # ms) # r) rest"
proof -
  consider "t = 0" | "0 < t" | "t < 0" by linarith
  then show ?thesis
  proof cases
    case 1
    then show ?thesis
      by (simp add: toString_def show_nat_0 is_json_ws_def start_value_def end_number_def
          after_value_def number_def)
  next
    case 2
    then have "steps (Value, InMember ms k # r) (toString t) = Some (NInt False (nat t), InMember ms k # r)"
      by (simp add: toString_def steps_show_nat)
    with 2 show ?thesis
      by (simp add: steps_append digit_val_def end_number_def after_value_def number_def is_json_ws_def)
  next
    case 3
    then have "steps (NMinus, InMember ms k # r) (show_nat (nat (- t))) = Some (NInt True (nat (- t)), InMember ms k # r)"
      by (simp add: steps_show_nat)
    with 3 have "steps (Value, InMember ms k # r) (toString t) = Some (NInt True (nat (- t)), InMember ms k # r)"
      by (simp add: toString_def is_json_ws_def start_value_def)
    with 3 show ?thesis
      by (simp add: steps_append digit_val_def end_number_def after_value_def number_def is_json_ws_def)
  qed
qed

lemma steps_object:
  assumes "m = Value \<or> m = FirstElement"
  shows "steps (m, InArray es # r) (SerializeJSONObject (wallpaper_properties w) @ rest)
     = steps (After, InArray (wallpaper_json w # es) # r) rest"
proof -
  have open_brace: "steps (m, InArray es # r) (0x7B # xs) = steps (FirstMember, InObject [] # InArray es # r) xs" for xs
    using assms by (auto simp: is_json_ws_def start_value_def)
  have colon: "steps (Colon, stk) (0x3A # xs) = steps (Value, stk) xs" for stk xs
    by (simp add: is_json_ws_def)
  have comma: "steps (After, InObject ms # stk) (0x2C # xs) = steps (Member, InObject ms # stk) xs" for ms stk xs
    by (simp add: is_json_ws_def after_value_def)
  have close_brace: "steps (After, InObject ms # InArray es # r) (0x7D # xs)
      = steps (After, InArray (JObject (rev ms) # es) # r) xs" for ms xs
    by (simp add: is_json_ws_def after_value_def completed_def)
  show ?thesis
    unfolding SerializeJSONObject_def wallpaper_properties_def SerializeJSONProperty_def wallpaper_json_def
    by (simp only: list.map join_comma.simps fst_conv snd_conv append.simps append_assoc
        open_brace colon comma close_brace steps_Quote_name [OF disjI1 [OF refl]]
        steps_Quote_name [OF disjI2 [OF refl]] steps_Quote_value steps_toString_member rev.simps)
qed


lemma steps_elements:
  assumes "m = Value \<or> m = FirstElement"
  shows "steps (m, InArray es # r)
           (join_comma (map (\<lambda>w. SerializeJSONObject (wallpaper_properties w)) (w # ws)) @ rest)
     = steps (After, InArray (rev (map wallpaper_json (w # ws)) @ es) # r) rest"
  using assms
proof (induction ws arbitrary: w es m)
  case Nil
  then show ?case by (simp add: steps_object del: step.simps steps.simps)
next
  case (Cons w' ws)
  have comma: "steps (After, InArray es' # r) (0x2C # xs) = steps (Value, InArray es' # r) xs" for es' xs
    by (simp add: is_json_ws_def after_value_def)
  let ?f = "\<lambda>w. SerializeJSONObject (wallpaper_properties w)"
  have "steps (m, InArray es # r) (join_comma (map ?f (w # w' # ws)) @ rest)
      = steps (m, InArray es # r) (?f w @ 0x2C # (join_comma (map ?f (w' # ws)) @ rest))"
    by simp
  also have "\<dots> = steps (After, InArray (wallpaper_json w # es) # r)
                      (0x2C # (join_comma (map ?f (w' # ws)) @ rest))"
    using Cons.prems by (rule steps_object)
  also have "\<dots> = steps (Value, InArray (wallpaper_json w # es) # r)
                      (join_comma (map ?f (w' # ws)) @ rest)"
    by (rule comma)
  also have "\<dots> = steps (After, InArray (rev (map wallpaper_json (w' # ws)) @ wallpaper_json w # es) # r) rest"
    by (rule Cons.IH) simp
  finally show ?case by simp
qed

lemma parse_stringify:
  "JSON_parse (JSON_stringify ws) = Some (JArray (map wallpaper_json ws))"
proof (cases ws)
  case Nil
  then show ?thesis
    by (simp add: JSON_parse_def JSON_stringify_def SerializeJSONArray_def is_json_ws_def
        start_value_def completed_def)
next
  case (Cons w ws')
  have "steps (Value, []) (JSON_stringify ws)
      = steps (FirstElement, [InArray []])
          (join_comma (map (\<lambda>w. SerializeJSONObject (wallpaper_properties w)) (w # ws')) @ [0x5D])"
    by (simp add: Cons JSON_stringify_def SerializeJSONArray_def is_json_ws_def start_value_def)
  also have "\<dots> = steps (After, [InArray (rev (map wallpaper_json (w # ws')) @ [])]) [0x5D]"
    by (rule steps_elements) simp
  also have "\<dots> = Some (After, [Done (JArray (map wallpaper_json ws))])"
    by (simp add: Cons is_json_ws_def after_value_def completed_def)
  finally show ?thesis by (simp add: JSON_parse_def)
qed

lemma ratio_of_string_ratio_string [simp]: "ratio_of_string (ratio_string a) = Some a"
  by (cases a) (simp_all add: ratio_of_string_def str_def)

lemma source_of_string_source_string [simp]: "source_of_string (source_string s) = Some s"
  by (cases s) (simp_all add: source_of_string_def str_def)

lemma as_wallpaper_json: "as_wallpaper (wallpaper_json w) = Some w"
  by (simp add: as_wallpaper_def wallpaper_json_def)

lemma as_wallpapers_json: "as_wallpapers (JArray (map wallpaper_json ws)) = Some ws"
  by (induction ws) (simp_all add: as_wallpapers_def as_wallpaper_json)

lemma stringify_nonempty: "JSON_stringify ws \<noteq> []"
  by (simp add: JSON_stringify_def SerializeJSONArray_def)

section \<open>Properties of loadData\<close>

lemma load_list_stored:
  "load_list (getItem k st0) x m =
     (case stored_under k st0 of
        Absent \<Rightarrow> Returns m
      | Unparsable \<Rightarrow> Throws SyntaxError m
      | Foreign j \<Rightarrow> Returns \<lparr>typed = typed m, untyped = (untyped m)(x \<mapsto> j)\<rparr>
      | Holds ws \<Rightarrow>
          Returns \<lparr>typed = assign_list x (enumerate (next_addr (typed m)) ws)
                             ((typed m)\<lparr>next_addr := next_addr (typed m) + length ws\<rparr>),
                   untyped = (untyped m)(x := None)\<rparr>)"
  by (simp add: load_list_def stored_under_def assign_parsed_def split: option.splits)

lemma keys_distinct:
  "str ''userHistory'' \<noteq> str ''demoHistory''"
  "str ''userHistory'' \<noteq> str ''allGenerations''"
  "str ''demoHistory'' \<noteq> str ''allGenerations''"
  "str ''demoHistory'' \<noteq> str ''userHistory''"
  "str ''allGenerations'' \<noteq> str ''userHistory''"
  "str ''allGenerations'' \<noteq> str ''demoHistory''"
  by (simp_all add: str_def)

lemma stored_stringify:
  assumes "getItem k st = Some (JSON_stringify ws)"
  shows "stored_under k st = Holds ws"
  using assms by (simp add: stored_under_def stringify_nonempty parse_stringify as_wallpapers_json)

lemma stored_absent:
  assumes "getItem k st = None"
  shows "stored_under k st = Absent"
  using assms by (simp add: stored_under_def)

lemma saved_items:
  "getItem (str ''userHistory'') (mem\<lparr>localStorage := localStorage (saveData st)\<rparr>)
     = Some (JSON_stringify (wallpapers_of (history st)))"
  "getItem (str ''demoHistory'') (mem\<lparr>localStorage := localStorage (saveData st)\<rparr>)
     = Some (JSON_stringify (wallpapers_of (demoHistory st)))"
  "getItem (str ''allGenerations'') (mem\<lparr>localStorage := localStorage (saveData st)\<rparr>)
     = Some (JSON_stringify (wallpapers_of (allGenerations st)))"
  by (simp_all add: getItem_def saveData_def setItem_def Let_def keys_distinct)

lemma parse_brace: "JSON_parse (str ''{'') = None"
  by (simp add: JSON_parse_def str_def is_json_ws_def start_value_def)

lemma parse_array_of_one: "JSON_parse (str ''[1]'') = Some (JArray [JNumber 1 0])"
  by (simp add: JSON_parse_def str_def is_json_ws_def start_value_def digit_val_def end_number_def
      after_value_def number_def completed_def)

lemma parse_undefined: "JSON_parse (str ''undefined'') = None"
  by (simp add: JSON_parse_def str_def is_json_ws_def start_value_def)

lemma broken_first:
  "stored_under (str ''userHistory'') (initial_state store_broken_first) = Unparsable"
  "stored_under (str ''demoHistory'') (initial_state store_broken_first) = Holds [example_wallpaper]"
proof -
  show "stored_under (str ''userHistory'') (initial_state store_broken_first) = Unparsable"
    by (simp add: stored_under_def getItem_def initial_state_def store_broken_first_def keys_distinct
        parse_brace) (simp add: str_def)
  show "stored_under (str ''demoHistory'') (initial_state store_broken_first) = Holds [example_wallpaper]"
    by (rule stored_stringify) (simp add: getItem_def initial_state_def store_broken_first_def)
qed

lemma broken_second:
  "stored_under (str ''userHistory'') (initial_state store_broken_second) = Foreign (JArray [JNumber 1 0])"
  "stored_under (str ''demoHistory'') (initial_state store_broken_second) = Unparsable"
proof -
  show "stored_under (str ''userHistory'') (initial_state store_broken_second)
      = Foreign (JArray [JNumber 1 0])"
    by (simp add: stored_under_def getItem_def initial_state_def store_broken_second_def keys_distinct
        parse_array_of_one as_wallpapers_def as_wallpaper_def) (simp add: str_def)
  show "stored_under (str ''demoHistory'') (initial_state store_broken_second) = Unparsable"
    by (simp add: stored_under_def getItem_def initial_state_def store_broken_second_def
        parse_brace) (simp add: str_def)
qed

lemma broken_third:
  "stored_under (str ''userHistory'') (initial_state store_broken_third) = Absent"
  "stored_under (str ''demoHistory'') (initial_state store_broken_third) = Absent"
  "stored_under (str ''allGenerations'') (initial_state store_broken_third) = Unparsable"
proof -
  show "stored_under (str ''userHistory'') (initial_state store_broken_third) = Absent"
    by (rule stored_absent) (simp add: getItem_def initial_state_def store_broken_third_def keys_distinct)
  show "stored_under (str ''demoHistory'') (initial_state store_broken_third) = Absent"
    by (rule stored_absent) (simp add: getItem_def initial_state_def store_broken_third_def keys_distinct)
  show "stored_under (str ''allGenerations'') (initial_state store_broken_third) = Unparsable"
    by (simp add: stored_under_def getItem_def initial_state_def store_broken_third_def parse_undefined)
       (simp add: str_def)
qed

lemma good:
  "stored_under (str ''userHistory'') (initial_state store_good) = Absent"
  "stored_under (str ''demoHistory'') (initial_state store_good) = Holds [example_wallpaper]"
  "stored_under (str ''allGenerations'') (initial_state store_good) = Holds [example_wallpaper]"
proof -
  show "stored_under (str ''userHistory'') (initial_state store_good) = Absent"
    by (rule stored_absent) (simp add: getItem_def initial_state_def store_good_def keys_distinct)
  show "stored_under (str ''demoHistory'') (initial_state store_good) = Holds [example_wallpaper]"
    by (rule stored_stringify) (simp add: getItem_def initial_state_def store_good_def keys_distinct)
  show "stored_under (str ''allGenerations'') (initial_state store_good) = Holds [example_wallpaper]"
    by (rule stored_stringify) (simp add: getItem_def initial_state_def store_good_def keys_distinct)
qed

text \<open>
  Claim C1, as the code has it. \<open>loadData\<close> reads the keys in the order \<open>userHistory\<close>,
  \<open>demoHistory\<close>, \<open>allGenerations\<close>. A key that is absent (or holds the empty string)
  leaves its list as it is, which is the empty list at startup. A key whose text parses
  gives its variable the parsed value, whatever its shape: the list, when the text is
  that of a list of wallpapers, and any other value as it is. At the first key whose
  text \<open>JSON.parse\<close> rejects, \<open>loadData\<close> throws \<open>SyntaxError\<close>: the variables of the
  keys before it have been read, the list of that key and the lists of the keys after it
  have not been assigned to. When no text is rejected, \<open>loadData\<close> returns with the
  three variables read.
\<close>

theorem loadData_stops_at_unparsable_value:
  "(stored_under (str ''userHistory'') st = Unparsable \<longrightarrow>
        loadData st = Throws SyntaxError \<lparr>typed = st, untyped = Map.empty\<rparr>)
   \<and> (stored_under (str ''userHistory'') st \<noteq> Unparsable
        \<and> stored_under (str ''demoHistory'') st = Unparsable \<longrightarrow>
        (\<exists>m. loadData st = Throws SyntaxError m
           \<and> held_by Var_history m
               = after_reading (stored_under (str ''userHistory'') st)
                   (Wallpapers (wallpapers_of (history st)))
           \<and> untouched Var_demoHistory st m \<and> untouched Var_allGenerations st m))
   \<and> (stored_under (str ''userHistory'') st \<noteq> Unparsable
        \<and> stored_under (str ''demoHistory'') st \<noteq> Unparsable
        \<and> stored_under (str ''allGenerations'') st = Unparsable \<longrightarrow>
        (\<exists>m. loadData st = Throws SyntaxError m
           \<and> held_by Var_history m
               = after_reading (stored_under (str ''userHistory'') st)
                   (Wallpapers (wallpapers_of (history st)))
           \<and> held_by Var_demoHistory m
               = after_reading (stored_under (str ''demoHistory'') st)
                   (Wallpapers (wallpapers_of (demoHistory st)))
           \<and> untouched Var_allGenerations st m))
   \<and> (stored_under (str ''userHistory'') st \<noteq> Unparsable
        \<and> stored_under (str ''demoHistory'') st \<noteq> Unparsable
        \<and> stored_under (str ''allGenerations'') st \<noteq> Unparsable \<longrightarrow>
        (\<exists>m. loadData st = Returns m
           \<and> held_by Var_history m
               = after_reading (stored_under (str ''userHistory'') st)
                   (Wallpapers (wallpapers_of (history st)))
           \<and> held_by Var_demoHistory m
               = after_reading (stored_under (str ''demoHistory'') st)
                   (Wallpapers (wallpapers_of (demoHistory st)))
           \<and> held_by Var_allGenerations m
               = after_reading (stored_under (str ''allGenerations'') st)
                   (Wallpapers (wallpapers_of (allGenerations st)))))"
  unfolding loadData_def Let_def load_list_stored
  by (cases "stored_under (str ''userHistory'') st";
      cases "stored_under (str ''demoHistory'') st";
      cases "stored_under (str ''allGenerations'') st";
      simp add: map_snd_enumerate held_by_def untouched_def)

theorem loadData_stops_at_unparsable_value_witness:
  "(stored_under (str ''userHistory'') (initial_state store_broken_first) = Unparsable
      \<and> loadData (initial_state store_broken_first)
          = Throws SyntaxError \<lparr>typed = initial_state store_broken_first, untyped = Map.empty\<rparr>)
   \<and> (stored_under (str ''userHistory'') (initial_state store_broken_second)
          = Foreign (JArray [JNumber 1 0])
      \<and> stored_under (str ''demoHistory'') (initial_state store_broken_second) = Unparsable
      \<and> (\<exists>m. loadData (initial_state store_broken_second) = Throws SyntaxError m
           \<and> held_by Var_history m = Other (JArray [JNumber 1 0])
           \<and> untouched Var_demoHistory (initial_state store_broken_second) m
           \<and> untouched Var_allGenerations (initial_state store_broken_second) m))
   \<and> (stored_under (str ''userHistory'') (initial_state store_broken_third) = Absent
      \<and> stored_under (str ''demoHistory'') (initial_state store_broken_third) = Absent
      \<and> stored_under (str ''allGenerations'') (initial_state store_broken_third) = Unparsable
      \<and> (\<exists>m. loadData (initial_state store_broken_third) = Throws SyntaxError m
           \<and> held_by Var_history m = Wallpapers []
           \<and> held_by Var_demoHistory m = Wallpapers []
           \<and> untouched Var_allGenerations (initial_state store_broken_third) m))
   \<and> (stored_under (str ''userHistory'') (initial_state store_good) = Absent
      \<and> stored_under (str ''demoHistory'') (initial_state store_good) = Holds [example_wallpaper]
      \<and> stored_under (str ''allGenerations'') (initial_state store_good) = Holds [example_wallpaper]
      \<and> (\<exists>m. loadData (initial_state store_good) = Returns m
           \<and> held_by Var_history m = Wallpapers []
           \<and> held_by Var_demoHistory m = Wallpapers [example_wallpaper]
           \<and> held_by Var_allGenerations m = Wallpapers [example_wallpaper]))"
proof -
  have e: "wallpapers_of (history (initial_state s)) = []"
    "wallpapers_of (demoHistory (initial_state s)) = []" for s
    by (simp_all add: initial_state_def)
  show ?thesis
    using loadData_stops_at_unparsable_value [of "initial_state store_broken_first"]
      loadData_stops_at_unparsable_value [of "initial_state store_broken_second"]
      loadData_stops_at_unparsable_value [of "initial_state store_broken_third"]
      loadData_stops_at_unparsable_value [of "initial_state store_good"]
    by (simp add: broken_first broken_second broken_third good e)
qed

text \<open>
  The claim C1 as the specification states it fails. With the text \<open>{\<close> under
  \<open>userHistory\<close> and the text of a list of one wallpaper under \<open>demoHistory\<close>,
  \<open>loadData\<close> throws to its caller, and \<open>demoHistory\<close> is still empty.
\<close>

theorem loadData_throws_counterexample:
  "loadData (initial_state store_broken_first)
     = Throws SyntaxError \<lparr>typed = initial_state store_broken_first, untyped = Map.empty\<rparr>
   \<and> stored_under (str ''demoHistory'') (initial_state store_broken_first) = Holds [example_wallpaper]
   \<and> demoHistory (initial_state store_broken_first) = []"
  unfolding loadData_def Let_def load_list_stored
  by (simp add: broken_first) (simp add: initial_state_def)

text \<open>
  Claim C9. After \<open>saveData\<close> in a state, \<open>loadData\<close> returns, and the three lists it
  has read have the entities of the lists of that state, with equal fields and in the same
  order (as new objects). This holds in the same session, and in a later one that starts
  from any values of the variables with the store that \<open>saveData\<close> left.
\<close>

theorem load_after_save:
  "(\<exists>st'. loadData (saveData st) = Returns \<lparr>typed = st', untyped = Map.empty\<rparr>
     \<and> wallpapers_of (history st') = wallpapers_of (history st)
     \<and> wallpapers_of (demoHistory st') = wallpapers_of (demoHistory st)
     \<and> wallpapers_of (allGenerations st') = wallpapers_of (allGenerations st))
   \<and> (\<exists>st'. loadData (mem\<lparr>localStorage := localStorage (saveData st)\<rparr>)
              = Returns \<lparr>typed = st', untyped = Map.empty\<rparr>
     \<and> wallpapers_of (history st') = wallpapers_of (history st)
     \<and> wallpapers_of (demoHistory st') = wallpapers_of (demoHistory st)
     \<and> wallpapers_of (allGenerations st') = wallpapers_of (allGenerations st))"
proof -
  have general: "\<exists>st'. loadData (m\<lparr>localStorage := localStorage (saveData st)\<rparr>)
       = Returns \<lparr>typed = st', untyped = Map.empty\<rparr>
     \<and> wallpapers_of (history st') = wallpapers_of (history st)
     \<and> wallpapers_of (demoHistory st') = wallpapers_of (demoHistory st)
     \<and> wallpapers_of (allGenerations st') = wallpapers_of (allGenerations st)" for m
    unfolding loadData_def Let_def load_list_stored
    by (simp add: stored_stringify [OF saved_items(1)] stored_stringify [OF saved_items(2)]
        stored_stringify [OF saved_items(3)] map_snd_enumerate)
  have "(saveData st)\<lparr>localStorage := localStorage (saveData st)\<rparr> = saveData st" by simp
  with general [of "saveData st"] general [of mem] show ?thesis by simp
qed

end
